theory Spec2Isabelle
  imports Complex_Main "HOL-Library.Sublist" "HOL-Library.List_Lexorder"
    "HOL-Library.Product_Lexorder" "HOL-Library.AList"
begin

section \<open>Python strings\<close>

text \<open>
  A Python \<open>str\<close> is a sequence of Unicode code points, so a string is a list of
  natural numbers; \<open>len\<close> is \<open>length\<close>, \<open>+\<close> is \<open>@\<close>, and comparison of
  strings is the lexicographic order on code points (the order of
  \<open>HOL-Library.List_Lexorder\<close>). \<open>str ''abc''\<close> writes an ASCII literal.
\<close>

type_synonym pystr = "nat list"

abbreviation (input) str :: "string \<Rightarrow> pystr" where
  "str s \<equiv> map of_char s"

text \<open>The code points for which \<open>str.isspace\<close> holds: what \<open>str.strip()\<close> removes.\<close>

definition is_space :: "nat \<Rightarrow> bool" where
  "is_space c \<longleftrightarrow>
     c \<in> set [9, 10, 11, 12, 13, 28, 29, 30, 31, 32, 133, 160, 5760,
               8232, 8233, 8239, 8287, 12288]
     \<or> (8192 \<le> c \<and> c \<le> 8202)"

definition lstrip :: "pystr \<Rightarrow> pystr" where
  "lstrip s = dropWhile is_space s"

definition rstrip :: "pystr \<Rightarrow> pystr" where
  "rstrip s = rev (dropWhile is_space (rev s))"

definition strip :: "pystr \<Rightarrow> pystr" where
  "strip s = rstrip (lstrip s)"

text \<open>\<open>s.index(c)\<close> and \<open>s.rindex(c)\<close> for a one-character \<open>c\<close>; \<open>None\<close> is ValueError.\<close>

fun index_of :: "nat \<Rightarrow> pystr \<Rightarrow> nat option" where
  "index_of c [] = None"
| "index_of c (x # xs) = (if x = c then Some 0 else map_option Suc (index_of c xs))"

definition rindex_of :: "nat \<Rightarrow> pystr \<Rightarrow> nat option" where
  "rindex_of c s = map_option (\<lambda>i. length s - 1 - i) (index_of c (rev s))"

text \<open>\<open>s[i:j]\<close> for \<open>0 \<le> i\<close> and \<open>0 \<le> j\<close>: empty when \<open>j \<le> i\<close>, clipped at the end.\<close>

definition slice :: "nat \<Rightarrow> nat \<Rightarrow> pystr \<Rightarrow> pystr" where
  "slice i j s = take (j - i) (drop i s)"

text \<open>\<open>needle in hay\<close>: the literal substring test.\<close>

fun contains :: "pystr \<Rightarrow> pystr \<Rightarrow> bool" where
  "contains needle [] = (needle = [])"
| "contains needle (h # hs) = (prefix needle (h # hs) \<or> contains needle hs)"

text \<open>\<open>sep.join(parts)\<close>.\<close>

fun join :: "pystr \<Rightarrow> pystr list \<Rightarrow> pystr" where
  "join sep [] = []"
| "join sep [p] = p"
| "join sep (p # q # ps) = p @ sep @ join sep (q # ps)"

text \<open>\<open>str.lower\<close> on ASCII text (used where a concrete library is needed).\<close>

definition ascii_lower :: "pystr \<Rightarrow> pystr" where
  "ascii_lower s = map (\<lambda>c. if 65 \<le> c \<and> c \<le> 90 then c + 32 else c) s"


section \<open>Values, errors and the collaborators\<close>

text \<open>
  The values \<open>json.loads\<close> returns. A dict keeps its insertion order and is an
  association list; \<open>d.get(k)\<close> is \<open>map_of\<close> and \<open>d[k] = v\<close> is \<open>AList.update\<close>.
  A float is represented by its value.
\<close>

datatype json =
    JNull
  | JBool bool
  | JInt int
  | JFloat rat
  | JStr pystr
  | JArr "json list"
  | JObj "(pystr \<times> json) list"

text \<open>
  The exceptions of the program. \<open>ExternalError\<close> is whatever a collaborator raises
  (reading the criteria file, the model call).
\<close>

datatype error =
    ValueError pystr
  | KeyError pystr
  | IndexError
  | TypeError
  | AttributeError
  | RuntimeError pystr
  | ExternalError pystr
  | NotModelled

text \<open>
  The standard-library functions the program calls and whose code is not in the
  repository: \<open>json.loads\<close> (\<open>Inl\<close> carries the text of the exception),
  \<open>json.dumps(_, indent=2)\<close> and \<open>str.lower\<close>. Every theorem below holds for all
  of them.
\<close>

record pylib =
  json_loads :: "pystr \<Rightarrow> pystr + json"
  json_dumps :: "json \<Rightarrow> pystr"
  str_lower :: "pystr \<Rightarrow> pystr"

text \<open>
  A file as \<open>gather_files\<close> sees it: \<open>os.path.getsize\<close> (\<open>None\<close>: it raises) and the
  text that \<open>open(..., errors='replace').read()\<close> returns (\<open>None\<close>: it raises).
  A directory as \<open>os.walk\<close> lists it: its files and its subdirectories, each in
  listing order.
\<close>

record file_data =
  fsize :: "nat option"
  ftext :: "pystr option"

datatype fsdir = Dir "(pystr \<times> file_data) list" "(pystr \<times> fsdir) list"

text \<open>
  The world outside the process: \<open>read_criteria\<close> (open and \<open>json.load\<close>), the tree
  under a root (\<open>None\<close>: no such directory, \<open>os.walk\<close> yields nothing),
  \<open>os.path.isfile\<close>, reading a file as text (\<open>None\<close>: it raises), and the model call.
\<close>

record world =
  read_criteria :: "pystr \<Rightarrow> error + json"
  os_walk :: "pystr \<Rightarrow> fsdir option"
  isfile :: "pystr \<Rightarrow> bool"
  read_text :: "pystr \<Rightarrow> pystr option"
  call_gemini :: "pystr \<Rightarrow> error + pystr"


section \<open>File Selector: \<open>gather_files\<close>\<close>

record file_entry =
  path :: pystr
  content :: pystr

text \<open>
  \<open>os.path.splitext(p)[1]\<close> (POSIX): the extension starts at the last dot of the
  last path component, unless only dots precede it there.
\<close>

definition splitext_ext :: "pystr \<Rightarrow> pystr" where
  "splitext_ext p =
     (let base = (case rindex_of 47 p of None \<Rightarrow> p | Some i \<Rightarrow> drop (Suc i) p)
      in case rindex_of 46 base of
           None \<Rightarrow> []
         | Some d \<Rightarrow> if list_all (\<lambda>c. c = 46) (take d base) then [] else drop d base)"

text \<open>
  \<open>os.path.relpath(os.path.join(root, fname), project_root)\<close> for a file \<open>fname\<close> in
  the directory reached from the project root through \<open>pre\<close>.
\<close>

definition relpath :: "pystr list \<Rightarrow> pystr \<Rightarrow> pystr" where
  "relpath pre fname = concat (map (\<lambda>d. d @ [47]) pre) @ fname"

definition skip_dirs :: "pystr list" where
  "skip_dirs = [str ''.git'', str ''node_modules'', str ''venv'', str ''__pycache__'']"

text \<open>
  The triples \<open>os.walk\<close> yields, top-down, once the loop body has pruned \<open>dirs\<close>:
  a directory, then each kept subdirectory in turn.
\<close>

fun walk :: "pystr list \<Rightarrow> fsdir \<Rightarrow> (pystr list \<times> (pystr \<times> file_data) list) list"
and walk_subs :: "pystr list \<Rightarrow> (pystr \<times> fsdir) list
                  \<Rightarrow> (pystr list \<times> (pystr \<times> file_data) list) list" where
  "walk pre (Dir fs ds) = (pre, fs) # walk_subs pre ds"
| "walk_subs pre [] = []"
| "walk_subs pre ((d, sub) # rest) =
     (if d \<in> set skip_dirs then [] else walk (pre @ [d]) sub) @ walk_subs pre rest"

text \<open>\<open>include_exts = set(include_exts) if include_exts else None\<close>.\<close>

definition norm_exts :: "pystr list option \<Rightarrow> pystr list option" where
  "norm_exts include_exts =
     (case include_exts of None \<Rightarrow> None | Some l \<Rightarrow> if l = [] then None else Some l)"

text \<open>The inner loop \<open>for fname in files\<close>: \<open>break\<close> returns, \<open>continue\<close> goes on.\<close>

fun scan_files :: "pylib \<Rightarrow> pystr list option \<Rightarrow> nat \<Rightarrow> nat \<Rightarrow> pystr list
                   \<Rightarrow> (pystr \<times> file_data) list \<Rightarrow> file_entry list \<Rightarrow> file_entry list" where
  "scan_files lib exts max_files max_size_bytes pre [] collected = collected"
| "scan_files lib exts max_files max_size_bytes pre ((fname, fd) # rest) collected =
     (if length collected \<ge> max_files then collected
      else if (case exts of None \<Rightarrow> False
               | Some l \<Rightarrow> str_lower lib (splitext_ext fname) \<notin> set l)
        then scan_files lib exts max_files max_size_bytes pre rest collected
      else (case fsize fd of
              None \<Rightarrow> scan_files lib exts max_files max_size_bytes pre rest collected
            | Some sz \<Rightarrow>
                if sz > max_size_bytes
                then scan_files lib exts max_files max_size_bytes pre rest collected
                else (case ftext fd of
                        None \<Rightarrow> scan_files lib exts max_files max_size_bytes pre rest collected
                      | Some c \<Rightarrow>
                          scan_files lib exts max_files max_size_bytes pre rest
                            (collected @ [\<lparr>path = relpath pre fname, content = c\<rparr>]))))"

text \<open>The outer loop over the directories, with its own \<open>break\<close>.\<close>

fun scan_dirs :: "pylib \<Rightarrow> pystr list option \<Rightarrow> nat \<Rightarrow> nat
                  \<Rightarrow> (pystr list \<times> (pystr \<times> file_data) list) list
                  \<Rightarrow> file_entry list \<Rightarrow> file_entry list" where
  "scan_dirs lib exts max_files max_size_bytes [] collected = collected"
| "scan_dirs lib exts max_files max_size_bytes ((pre, files) # rest) collected =
     (let collected' = scan_files lib exts max_files max_size_bytes pre files collected
      in if length collected' \<ge> max_files then collected'
         else scan_dirs lib exts max_files max_size_bytes rest collected')"

text \<open>The key of the final sort: \<open>(0 if path.lower().startswith('readme') else 1, path)\<close>.\<close>

definition readme_first :: "pylib \<Rightarrow> file_entry \<Rightarrow> bool" where
  "readme_first lib x \<longleftrightarrow> prefix (str ''readme'') (str_lower lib (path x))"

definition sort_rank :: "pylib \<Rightarrow> file_entry \<Rightarrow> nat \<times> pystr" where
  "sort_rank lib x = (if readme_first lib x then 0 else 1, path x)"

text \<open>
  The ceilings are counts, hence natural numbers. \<open>list.sort\<close> is a stable sort by
  key, as \<open>sort_key\<close> is.
\<close>

definition gather_files :: "pylib \<Rightarrow> world \<Rightarrow> pystr \<Rightarrow> pystr list option \<Rightarrow> nat \<Rightarrow> nat
                            \<Rightarrow> file_entry list" where
  "gather_files lib w project_root include_exts max_files max_size_bytes =
     (case os_walk w project_root of
        None \<Rightarrow> []
      | Some t \<Rightarrow>
          sort_key (sort_rank lib)
            (scan_dirs lib (norm_exts include_exts) max_files max_size_bytes (walk [] t) []))"

text \<open>The files a walk visits, with the directory each one is in.\<close>

definition visited_files :: "fsdir \<Rightarrow> (pystr list \<times> pystr \<times> file_data) list" where
  "visited_files t = concat (map (\<lambda>(pre, files). map (\<lambda>(fname, fd). (pre, fname, fd)) files)
                                 (walk [] t))"

text \<open>\<open>os.path.basename\<close> (POSIX): what follows the last slash.\<close>

definition basename :: "pystr \<Rightarrow> pystr" where
  "basename p = (case rindex_of 47 p of None \<Rightarrow> p | Some i \<Rightarrow> drop (Suc i) p)"


section \<open>Prompt Builder: \<open>build_prompt\<close>\<close>

text \<open>The literal, line by line; its first character is a newline.\<close>

definition PROMPT_TEMPLATE_LINES :: "string list" where
  \<open>PROMPT_TEMPLATE_LINES =
     [''\<newline>'',
      ''You are an impartial automated code reviewer. You will be given:\<newline>'',
      ''1) a `criteria` JSON mapping evaluation categories to integer weights (sum may be 100).\<newline>'',
      ''2) a list of files in the candidate's repository (file path + file contents, limited).\<newline>'',
      ''3) the target role to evaluate: one of ["intern", "sde", "architect"].\<newline>'',
      ''\<newline>'',
      ''Task:\<newline>'',
      ''- For each category in the criteria for the requested role, give the following in clear subtopics and points:\<newline>'',
      ''  - a numeric score from 0 to the category weight (same units as weights provided),\<newline>'',
      ''  - a concise written justification (2-3 sentences) clearly pointing out where it is missing or done well with an code snipet showing the expectation,\<newline>'',
      ''  - zero or more evidence items: each evidence item must reference a file path and (if applicable) a short quoted code snippet or line-range and explanation.\<newline>'',
      ''- Produce a final `total_score` (sum of category scores).\<newline>'',
      ''- Provide a short `overall_summary` (2-3 sentences) and a list of `suggested_actions` (3-6 actionable improvements).\<newline>'',
      ''- STRICTLY return a single JSON object (no extra commentary). The keys must be:\<newline>'',
      ''  {\<newline>'',
      ''    "role": "<role>",\<newline>'',
      ''    "criteria_scores": {\<newline>'',
      ''       "<category>": {"score": <number>, "justification": "<text>", "evidence": [{"path":"...","snippet":"...","note":"..."} , ...] },\<newline>'',
      ''       ...\<newline>'',
      ''    },\<newline>'',
      ''    "total_score": <number>,\<newline>'',
      ''    "overall_summary": "<text>",\<newline>'',
      ''    "suggested_actions": ["...","..."]\<newline>'',
      ''  }\<newline>'',
      ''\<newline>'',
      ''Important constraints for the model:\<newline>'',
      ''- Do not hallucinate file names or snippets. Only cite evidence found in the provided file list.\<newline>'',
      ''- If a category cannot be judged from the given files, give a conservative mid/low score and say "insufficient evidence" in justification.\<newline>'',
      ''- Keep each justification short (<=70 words).\<newline>'',
      ''- Keep JSON strictly valid.\<newline>'',
      ''\<newline>'',
      ''Now evaluate. Here are the inputs:\<newline>'',
      ''\<newline>'',
      ''CRITERIA_JSON:\<newline>'',
      ''{criteria_json}\<newline>'',
      ''\<newline>'',
      ''ROLE:\<newline>'',
      ''{role}\<newline>'',
      ''\<newline>'',
      ''FILES:\<newline>'',
      ''{files_dump}\<newline>'']\<close>

definition PROMPT_TEMPLATE :: pystr where
  "PROMPT_TEMPLATE = str (concat PROMPT_TEMPLATE_LINES)"

text \<open>
  \<open>str.format\<close> called with keyword arguments only, as CPython's \<open>MarkupIterator\<close>
  reads a format string: one character at a time, in one of these modes. A
  replacement field is rendered when its closing brace is read.
\<close>

datatype fmt_mode =
    Lit
  | LBrace
  | RBrace
  | FName pystr
  | FIndex pystr
  | FConv pystr
  | FConvEnd pystr nat
  | FSpec pystr "nat option" pystr nat

text \<open>
  Rendering a field: the first part of the name (up to \<open>.\<close> or \<open>[\<close>) selects the
  argument. An empty or numeric name is positional, and there are no positional
  arguments; any other name is looked up among the keyword arguments. A string
  argument with no conversion and no format specification is inserted as it is;
  attribute and index access, conversions, format specifications and names that
  are not ASCII are outside this model.
\<close>

definition render_field :: "(pystr \<times> pystr) list \<Rightarrow> pystr \<Rightarrow> nat option \<Rightarrow> pystr \<Rightarrow> pystr
                            \<Rightarrow> error + fmt_mode \<times> pystr" where
  "render_field kwargs nm cv spec out =
     (let first = takeWhile (\<lambda>c. c \<noteq> 46 \<and> c \<noteq> 91) nm
      in if first = [] then Inl IndexError
         else if \<not> list_all (\<lambda>c. c < 128) first then Inl NotModelled
         else if list_all (\<lambda>c. 48 \<le> c \<and> c \<le> 57) first
           then (if length first \<le> 18 then Inl IndexError else Inl NotModelled)
         else (case map_of kwargs first of
                 None \<Rightarrow> Inl (KeyError first)
               | Some v \<Rightarrow> if nm = first \<and> cv = None \<and> spec = []
                           then Inr (Lit, out @ v) else Inl NotModelled))"

definition name_char :: "(pystr \<times> pystr) list \<Rightarrow> pystr \<Rightarrow> pystr \<Rightarrow> nat
                         \<Rightarrow> error + fmt_mode \<times> pystr" where
  "name_char kwargs nm out c =
     (if c = 123 then Inl (ValueError (str ''unexpected '{' in field name''))
      else if c = 91 then Inr (FIndex (nm @ [c]), out)
      else if c = 125 then render_field kwargs nm None [] out
      else if c = 58 then Inr (FSpec nm None [] 1, out)
      else if c = 33 then Inr (FConv nm, out)
      else Inr (FName (nm @ [c]), out))"

fun fmt_step :: "(pystr \<times> pystr) list \<Rightarrow> fmt_mode \<Rightarrow> pystr \<Rightarrow> nat
                 \<Rightarrow> error + fmt_mode \<times> pystr" where
  "fmt_step kwargs Lit out c =
     (if c = 123 then Inr (LBrace, out)
      else if c = 125 then Inr (RBrace, out)
      else Inr (Lit, out @ [c]))"
| "fmt_step kwargs LBrace out c =
     (if c = 123 then Inr (Lit, out @ [123]) else name_char kwargs [] out c)"
| "fmt_step kwargs RBrace out c =
     (if c = 125 then Inr (Lit, out @ [125])
      else Inl (ValueError (str ''Single '}' encountered in format string'')))"
| "fmt_step kwargs (FName nm) out c = name_char kwargs nm out c"
| "fmt_step kwargs (FIndex nm) out c =
     (if c = 93 then Inr (FName (nm @ [c]), out) else Inr (FIndex (nm @ [c]), out))"
| "fmt_step kwargs (FConv nm) out c = Inr (FConvEnd nm c, out)"
| "fmt_step kwargs (FConvEnd nm cv) out c =
     (if c = 125 then render_field kwargs nm (Some cv) [] out
      else if c = 58 then Inr (FSpec nm (Some cv) [] 1, out)
      else Inl (ValueError (str ''expected ':' after conversion specifier'')))"
| "fmt_step kwargs (FSpec nm cv spec n) out c =
     (if c = 123 then Inr (FSpec nm cv (spec @ [c]) (Suc n), out)
      else if c = 125
        then (if n \<le> 1 then render_field kwargs nm cv spec out
              else Inr (FSpec nm cv (spec @ [c]) (n - 1), out))
      else Inr (FSpec nm cv (spec @ [c]) n, out))"

fun fmt_end :: "fmt_mode \<Rightarrow> pystr \<Rightarrow> error + pystr" where
  "fmt_end Lit out = Inr out"
| "fmt_end LBrace out = Inl (ValueError (str ''Single '{' encountered in format string''))"
| "fmt_end RBrace out = Inl (ValueError (str ''Single '}' encountered in format string''))"
| "fmt_end (FName nm) out = Inl (ValueError (str ''expected '}' before end of string''))"
| "fmt_end (FIndex nm) out = Inl (ValueError (str ''expected '}' before end of string''))"
| "fmt_end (FConv nm) out =
     Inl (ValueError (str ''end of string while looking for conversion specifier''))"
| "fmt_end (FConvEnd nm cv) out = Inl (ValueError (str ''unmatched '{' in format spec''))"
| "fmt_end (FSpec nm cv spec n) out = Inl (ValueError (str ''unmatched '{' in format spec''))"

fun fmt_run :: "(pystr \<times> pystr) list \<Rightarrow> fmt_mode \<Rightarrow> pystr \<Rightarrow> pystr \<Rightarrow> error + pystr" where
  "fmt_run kwargs m out [] = fmt_end m out"
| "fmt_run kwargs m out (c # cs) =
     (case fmt_step kwargs m out c of
        Inl e \<Rightarrow> Inl e
      | Inr (m', out') \<Rightarrow> fmt_run kwargs m' out' cs)"

definition py_format :: "pystr \<Rightarrow> (pystr \<times> pystr) list \<Rightarrow> error + pystr" where
  "py_format template kwargs = fmt_run kwargs Lit [] template"

text \<open>The per-file work of the loop in \<open>build_prompt\<close>.\<close>

definition SNIPPED :: pystr where
  "SNIPPED = str ''\<newline>\<newline>...<<SNIPPED MIDDLE>>...\<newline>\<newline>''"

text \<open>
  \<open>content.replace("```", ...)\<close>: the occurrences are replaced from the left,
  without overlap; the replacement puts U+200B between the backticks.
\<close>

fun replace_fence :: "pystr \<Rightarrow> pystr" where
  "replace_fence (a # b # c # rest) =
     (if a = 96 \<and> b = 96 \<and> c = 96 then [96, 8203, 96, 8203, 96] @ replace_fence rest
      else a # replace_fence (b # c # rest))"
| "replace_fence s = s"

definition truncate_content :: "pystr \<Rightarrow> pystr" where
  "truncate_content c =
     (if length c > 6000 then take 3000 c @ SNIPPED @ drop (length c - 3000) c else c)"

definition file_block :: "file_entry \<Rightarrow> pystr" where
  "file_block f =
     str ''---FILE: '' @ path f @ str ''---\<newline>''
       @ replace_fence (truncate_content (content f)) @ [10]"

text \<open>
  The loop \<open>for f in file_entries\<close>, with the list of entries passed through as the
  store the loop could write to: the result is the store after the loop and
  \<open>limited_dump\<close>.
\<close>

function dump_loop :: "file_entry list \<Rightarrow> nat \<Rightarrow> pystr list \<Rightarrow> file_entry list \<times> pystr list" where
  "dump_loop file_entries i limited_dump =
     (if i < length file_entries
      then dump_loop file_entries (Suc i) (limited_dump @ [file_block (file_entries ! i)])
      else (file_entries, limited_dump))"
  by pat_completeness auto
termination
  by (relation "measure (\<lambda>(fs, i, d). length fs - i)") auto

declare dump_loop.simps [simp del]

text \<open>
  \<open>build_prompt\<close> returns the entries as it leaves them and the prompt, or the
  exception \<open>str.format\<close> raises.
\<close>

definition build_prompt :: "pylib \<Rightarrow> json \<Rightarrow> pystr \<Rightarrow> file_entry list
                            \<Rightarrow> file_entry list \<times> (error + pystr)" where
  "build_prompt lib criteria role file_entries =
     (let (file_entries', limited_dump) = dump_loop file_entries 0 [];
          files_dump = join [10] limited_dump
      in (file_entries',
          case py_format PROMPT_TEMPLATE
                 [(str ''criteria_json'', json_dumps lib criteria),
                  (str ''role'', role),
                  (str ''files_dump'', files_dump)] of
            Inl e \<Rightarrow> Inl e
          | Inr prompt \<Rightarrow> Inr (take 900000 prompt)))"


section \<open>Response Parser\<close>

text \<open>
  The statements of \<open>validate_project\<close> that turn the raw model output into a
  value: \<open>text = raw.strip()\<close>, the attempt on \<open>text[text.index('{') : text.rindex('}') + 1]\<close>,
  where any exception leads to the attempt on the whole of \<open>text\<close>, and the
  RuntimeError when that fails too.
\<close>

definition bracket_attempt :: "pylib \<Rightarrow> pystr \<Rightarrow> json option" where
  "bracket_attempt lib text =
     (case index_of 123 text of
        None \<Rightarrow> None
      | Some json_start \<Rightarrow>
          (case rindex_of 125 text of
             None \<Rightarrow> None
           | Some k \<Rightarrow>
               (case json_loads lib (slice json_start (k + 1) text) of
                  Inl e \<Rightarrow> None
                | Inr v \<Rightarrow> Some v)))"

definition parse_failure :: "pystr \<Rightarrow> pystr \<Rightarrow> pystr" where
  "parse_failure text e =
     str ''Failed to parse JSON from model output. Raw output first 2000 chars:\<newline>''
       @ take 2000 text @ str ''\<newline>\<newline>Error:'' @ e"

definition parse_response :: "pylib \<Rightarrow> pystr \<Rightarrow> error + json" where
  "parse_response lib raw_output =
     (let text = strip raw_output
      in case bracket_attempt lib text of
           Some v \<Rightarrow> Inr v
         | None \<Rightarrow>
             (case json_loads lib text of
                Inr v \<Rightarrow> Inr v
              | Inl e \<Rightarrow> Inl (RuntimeError (parse_failure text e))))"


section \<open>Evidence Verifier: \<open>verify_evidence\<close>\<close>

text \<open>Python's truth value of a parsed value (\<open>if path\<close>).\<close>

fun truthy :: "json \<Rightarrow> bool" where
  "truthy JNull = False"
| "truthy (JBool b) = b"
| "truthy (JInt i) = (i \<noteq> 0)"
| "truthy (JFloat r) = (r \<noteq> 0)"
| "truthy (JStr s) = (s \<noteq> [])"
| "truthy (JArr xs) = (xs \<noteq> [])"
| "truthy (JObj kvs) = (kvs \<noteq> [])"

text \<open>\<open>os.path.join(a, b)\<close> (POSIX).\<close>

definition path_join :: "pystr \<Rightarrow> pystr \<Rightarrow> pystr" where
  "path_join a b =
     (if prefix [47] b then b
      else if a = [] \<or> last a = 47 then a @ b
      else a @ [47] @ b)"

text \<open>\<open>d.get(k, default)\<close>.\<close>

definition dict_get :: "(pystr \<times> json) list \<Rightarrow> pystr \<Rightarrow> json \<Rightarrow> json" where
  "dict_get d k dflt = (case map_of d k of None \<Rightarrow> dflt | Some v \<Rightarrow> v)"

definition NOT_FOUND :: pystr where
  "NOT_FOUND = str '' [EVIDENCE NOT FOUND]''"

text \<open>
  \<open>fullpath = os.path.join(project_root, path) if path else None\<close>; the join raises
  TypeError when \<open>path\<close> is true but not a string.
\<close>

definition full_path :: "pystr \<Rightarrow> json \<Rightarrow> error + pystr option" where
  "full_path project_root p =
     (if truthy p
      then (case p of JStr s \<Rightarrow> Inr (Some (path_join project_root s)) | _ \<Rightarrow> Inl TypeError)
      else Inr None)"

text \<open>
  The \<open>try\<close> block: any exception in it (the file cannot be read, \<open>snippet\<close> has no
  \<open>strip\<close>) leaves \<open>verified\<close> False.
\<close>

definition snippet_found :: "world \<Rightarrow> pystr \<Rightarrow> json \<Rightarrow> bool" where
  "snippet_found w fullpath snippet =
     (case read_text w fullpath of
        None \<Rightarrow> False
      | Some text \<Rightarrow>
          (case snippet of
             JStr s \<Rightarrow> strip s \<noteq> [] \<and> contains (strip s) text
           | _ \<Rightarrow> False))"

text \<open>The body of \<open>for ev in evs\<close>; \<open>ev.get\<close> raises AttributeError unless \<open>ev\<close> is a dict.\<close>

definition verify_item :: "world \<Rightarrow> pystr \<Rightarrow> json \<Rightarrow> error + json" where
  "verify_item w project_root ev =
     (case ev of
        JObj kvs \<Rightarrow>
          (case full_path project_root (dict_get kvs (str ''path'') JNull) of
             Inl e \<Rightarrow> Inl e
           | Inr fullpath \<Rightarrow>
               (let snippet = dict_get kvs (str ''snippet'') (JStr []);
                    verified = (case fullpath of
                                  None \<Rightarrow> False
                                | Some fp \<Rightarrow> isfile w fp \<and> snippet_found w fp snippet);
                    ev_copy = AList.update (str ''verified'') (JBool verified) kvs
                in if verified then Inr (JObj ev_copy)
                   else (case dict_get ev_copy (str ''note'') (JStr []) of
                           JStr n \<Rightarrow>
                             Inr (JObj (AList.update (str ''note'')
                                          (JStr (strip (n @ NOT_FOUND))) ev_copy))
                         | _ \<Rightarrow> Inl TypeError)))
      | _ \<Rightarrow> Inl AttributeError)"

fun verify_items :: "world \<Rightarrow> pystr \<Rightarrow> json list \<Rightarrow> error + json list" where
  "verify_items w project_root [] = Inr []"
| "verify_items w project_root (ev # evs) =
     (case verify_item w project_root ev of
        Inl e \<Rightarrow> Inl e
      | Inr ev_copy \<Rightarrow>
          (case verify_items w project_root evs of
             Inl e \<Rightarrow> Inl e
           | Inr new_evs \<Rightarrow> Inr (ev_copy # new_evs)))"

text \<open>
  What \<open>for ev in evs\<close> iterates over: the elements of a list, the characters of a
  string, the keys of a dict; anything else is not iterable.
\<close>

fun py_iter :: "json \<Rightarrow> error + json list" where
  "py_iter (JArr xs) = Inr xs"
| "py_iter (JStr s) = Inr (map (\<lambda>c. JStr [c]) s)"
| "py_iter (JObj kvs) = Inr (map (\<lambda>kv. JStr (fst kv)) kvs)"
| "py_iter v = Inl TypeError"

text \<open>The body of \<open>for cat, details in criteria_scores.items()\<close>.\<close>

definition verify_details :: "world \<Rightarrow> pystr \<Rightarrow> json \<Rightarrow> error + json" where
  "verify_details w project_root details =
     (case details of
        JObj dkv \<Rightarrow>
          (case py_iter (dict_get dkv (str ''evidence'') (JArr [])) of
             Inl e \<Rightarrow> Inl e
           | Inr evs \<Rightarrow>
               (case verify_items w project_root evs of
                  Inl e \<Rightarrow> Inl e
                | Inr new_evs \<Rightarrow> Inr (JObj (AList.update (str ''evidence'') (JArr new_evs) dkv))))
      | _ \<Rightarrow> Inl AttributeError)"

text \<open>
  The loop over the categories. The keys of a dict are distinct, so the assignment
  \<open>criteria_scores[cat]['evidence'] = new_evs\<close> writes into \<open>details\<close> itself.
\<close>

fun verify_cats :: "world \<Rightarrow> pystr \<Rightarrow> (pystr \<times> json) list \<Rightarrow> error + (pystr \<times> json) list" where
  "verify_cats w project_root [] = Inr []"
| "verify_cats w project_root ((cat, details) # rest) =
     (case verify_details w project_root details of
        Inl e \<Rightarrow> Inl e
      | Inr details' \<Rightarrow>
          (case verify_cats w project_root rest of
             Inl e \<Rightarrow> Inl e
           | Inr rest' \<Rightarrow> Inr ((cat, details') # rest')))"

text \<open>
  \<open>verify_evidence\<close> writes into the report it is given and returns it: the value
  here is that report after the call.
\<close>

definition verify_evidence :: "world \<Rightarrow> pystr \<Rightarrow> json \<Rightarrow> error + json" where
  "verify_evidence w project_root report =
     (case report of
        JObj rkv \<Rightarrow>
          (case dict_get rkv (str ''criteria_scores'') (JObj []) of
             JObj criteria_scores \<Rightarrow>
               (case verify_cats w project_root criteria_scores of
                  Inl e \<Rightarrow> Inl e
                | Inr criteria_scores' \<Rightarrow>
                    Inr (JObj (AList.update (str ''criteria_scores'') (JObj criteria_scores') rkv)))
           | _ \<Rightarrow> Inl AttributeError)
      | _ \<Rightarrow> Inl AttributeError)"


section \<open>Pipeline Orchestrator: \<open>validate_project\<close>\<close>

record outcome =
  out_raw :: pystr
  out_result :: json
  out_files_sent_count :: nat

text \<open>The calls that leave the process, in the order they are made.\<close>

datatype event =
    ReadCriteria pystr
  | WalkProject pystr
  | CallModel pystr
  | VerifyFiles pystr

definition roles :: "pystr list" where
  "roles = [str ''intern'', str ''sde'', str ''architect'']"

definition include_exts_default :: "pystr list" where
  "include_exts_default =
     [str ''.py'', str ''.md'', str ''.txt'', str ''.json'', str ''.yml'', str ''.yaml'',
      str ''.js'', str ''.java'', str ''.go'']"

text \<open>
  From the parsing of the raw output to the return. \<open>result\<close> and the report that
  \<open>verify_evidence\<close> wrote into are the same object, so the \<open>result\<close> returned is the
  verified report.
\<close>

definition finish_report :: "pylib \<Rightarrow> world \<Rightarrow> pystr \<Rightarrow> pystr \<Rightarrow> file_entry list
                             \<Rightarrow> event list \<times> (error + outcome)" where
  "finish_report lib w project_root raw_output files =
     (case parse_response lib raw_output of
        Inl e \<Rightarrow> ([], Inl e)
      | Inr res \<Rightarrow>
          ([VerifyFiles project_root],
           case verify_evidence w project_root res of
             Inl e \<Rightarrow> Inl e
           | Inr verified_report \<Rightarrow>
               Inr \<lparr>out_raw = raw_output, out_result = verified_report,
                    out_files_sent_count = length files\<rparr>))"

definition validate_project :: "pylib \<Rightarrow> world \<Rightarrow> pystr \<Rightarrow> pystr \<Rightarrow> pystr
                                \<Rightarrow> event list \<times> (error + outcome)" where
  "validate_project lib w project_root criteria_path role =
     (if role \<notin> set roles
      then ([], Inl (ValueError (str ''role must be one of: intern, sde, architect'')))
      else (case read_criteria w criteria_path of
              Inl e \<Rightarrow> ([ReadCriteria criteria_path], Inl e)
            | Inr criteria \<Rightarrow>
                (let files = gather_files lib w project_root (Some include_exts_default)
                               80 200000;
                     (files', built) = build_prompt lib criteria role files
                 in case built of
                      Inl e \<Rightarrow> ([ReadCriteria criteria_path, WalkProject project_root], Inl e)
                    | Inr prompt \<Rightarrow>
                        (case call_gemini w prompt of
                           Inl e \<Rightarrow>
                             ([ReadCriteria criteria_path, WalkProject project_root,
                               CallModel prompt], Inl e)
                         | Inr raw_output \<Rightarrow>
                             (let (evs, r) = finish_report lib w project_root raw_output files'
                              in ([ReadCriteria criteria_path, WalkProject project_root,
                                   CallModel prompt] @ evs, r))))))"


section \<open>A reader for a fragment of JSON\<close>

text \<open>
  Closed examples need one concrete \<open>json.loads\<close>. \<open>fragment_loads\<close> reads the JSON
  texts built from objects, arrays, strings without escapes, integers, \<open>true\<close>,
  \<open>false\<close> and \<open>null\<close>, and rejects every other text; the examples stay inside the
  fragment. The text of its errors is schematic.
\<close>

definition skip_ws :: "pystr \<Rightarrow> pystr" where
  "skip_ws s = dropWhile (\<lambda>c. c = 32 \<or> c = 9 \<or> c = 10 \<or> c = 13) s"

fun string_body :: "pystr \<Rightarrow> pystr \<Rightarrow> (pystr \<times> pystr) option" where
  "string_body acc [] = None"
| "string_body acc (c # cs) =
     (if c = 34 then Some (acc, cs)
      else if c = 92 \<or> c < 32 then None
      else string_body (acc @ [c]) cs)"

definition is_digit :: "nat \<Rightarrow> bool" where
  "is_digit c \<longleftrightarrow> 48 \<le> c \<and> c \<le> 57"

definition digits_value :: "pystr \<Rightarrow> int" where
  "digits_value ds = foldl (\<lambda>a c. 10 * a + int (c - 48)) 0 ds"

definition unsigned_int :: "pystr \<Rightarrow> (int \<times> pystr) option" where
  "unsigned_int s =
     (let ds = (if prefix [48] s then [48] else takeWhile is_digit s);
          r = drop (length ds) s
      in if ds = [] then None
         else if r \<noteq> [] \<and> (hd r = 46 \<or> hd r = 101 \<or> hd r = 69) then None
         else Some (digits_value ds, r))"

definition number :: "pystr \<Rightarrow> (json \<times> pystr) option" where
  "number s =
     (if prefix [45] s
      then map_option (\<lambda>(i, r). (JInt (- i), r)) (unsigned_int (tl s))
      else map_option (\<lambda>(i, r). (JInt i, r)) (unsigned_int s))"

fun value_at :: "nat \<Rightarrow> pystr \<Rightarrow> (json \<times> pystr) option"
and elements_at :: "nat \<Rightarrow> json list \<Rightarrow> pystr \<Rightarrow> (json \<times> pystr) option"
and members_at :: "nat \<Rightarrow> (pystr \<times> json) list \<Rightarrow> pystr \<Rightarrow> (json \<times> pystr) option" where
  "value_at 0 s = None"
| "value_at (Suc n) s =
     (case s of
        [] \<Rightarrow> None
      | c # cs \<Rightarrow>
          if c = 123
            then (if prefix [125] (skip_ws cs) then Some (JObj [], tl (skip_ws cs))
                  else members_at n [] (skip_ws cs))
          else if c = 91
            then (if prefix [93] (skip_ws cs) then Some (JArr [], tl (skip_ws cs))
                  else elements_at n [] (skip_ws cs))
          else if c = 34 then map_option (\<lambda>(t, r). (JStr t, r)) (string_body [] cs)
          else if prefix (str ''null'') s then Some (JNull, drop 4 s)
          else if prefix (str ''true'') s then Some (JBool True, drop 4 s)
          else if prefix (str ''false'') s then Some (JBool False, drop 5 s)
          else number s)"
| "elements_at 0 acc s = None"
| "elements_at (Suc n) acc s =
     (case value_at n s of
        None \<Rightarrow> None
      | Some (v, r) \<Rightarrow>
          (case skip_ws r of
             [] \<Rightarrow> None
           | c # cs \<Rightarrow>
               if c = 44 then elements_at n (acc @ [v]) (skip_ws cs)
               else if c = 93 then Some (JArr (acc @ [v]), cs)
               else None))"
| "members_at 0 acc s = None"
| "members_at (Suc n) acc s =
     (case s of
        [] \<Rightarrow> None
      | q # s1 \<Rightarrow>
          if q \<noteq> 34 then None
          else (case string_body [] s1 of
                  None \<Rightarrow> None
                | Some (k, r) \<Rightarrow>
                    (case skip_ws r of
                       [] \<Rightarrow> None
                     | colon # r1 \<Rightarrow>
                         if colon \<noteq> 58 then None
                         else (case value_at n (skip_ws r1) of
                                 None \<Rightarrow> None
                               | Some (v, r2) \<Rightarrow>
                                   (case skip_ws r2 of
                                      [] \<Rightarrow> None
                                    | c # cs \<Rightarrow>
                                        if c = 44
                                          then members_at n (AList.update k v acc) (skip_ws cs)
                                        else if c = 125
                                          then Some (JObj (AList.update k v acc), cs)
                                        else None)))))"

definition fragment_loads :: "pystr \<Rightarrow> pystr + json" where
  "fragment_loads s =
     (case value_at (Suc (length s)) (skip_ws s) of
        None \<Rightarrow> Inl (str ''Expecting value'')
      | Some (v, r) \<Rightarrow> if skip_ws r = [] then Inr v else Inl (str ''Extra data''))"


section \<open>A concrete library and a concrete tree\<close>

definition example_tree :: fsdir where
  "example_tree =
     Dir [(str ''a.py'', \<lparr>fsize = Some 3, ftext = Some (str ''x=1'')\<rparr>),
          (str ''big.py'', \<lparr>fsize = Some 9, ftext = Some (str ''y = 12345'')\<rparr>),
          (str ''Readme.txt'', \<lparr>fsize = Some 2, ftext = Some (str ''hi'')\<rparr>)]
         [(str ''.git'', Dir [(str ''config'', \<lparr>fsize = Some 1, ftext = Some (str ''c'')\<rparr>)] []),
          (str ''docs'', Dir [(str ''README.md'', \<lparr>fsize = Some 4, ftext = Some (str ''# hi'')\<rparr>)] [])]"

text \<open>
  The library of the examples: the fragment reader, \<open>json.dumps\<close> of the empty
  criteria object (the only value the examples give it) and \<open>str.lower\<close> on ASCII.
\<close>

definition example_lib :: pylib where
  "example_lib = \<lparr>json_loads = fragment_loads, json_dumps = (\<lambda>j. str ''{}''),
                   str_lower = ascii_lower\<rparr>"

text \<open>
  A project at \<open>proj\<close> with \<open>example_tree\<close>, whose file \<open>a.py\<close> reads \<open>x=1\<close>; the
  criteria file holds \<open>{}\<close>; the model answers \<open>reply\<close>.
\<close>

definition example_world :: "pystr \<Rightarrow> world" where
  "example_world reply =
     \<lparr>read_criteria = (\<lambda>p. Inr (JObj [])),
      os_walk = (\<lambda>r. if r = str ''proj'' then Some example_tree else None),
      isfile = (\<lambda>p. p = str ''proj/a.py''),
      read_text = (\<lambda>p. if p = str ''proj/a.py'' then Some (str ''x=1'') else None),
      call_gemini = (\<lambda>prompt. Inr reply)\<rparr>"

text \<open>A project with one file in its root and one in a directory \<open>Readme_assets\<close>.\<close>

definition readme_dir_world :: world where
  "readme_dir_world =
     \<lparr>read_criteria = (\<lambda>p. Inr (JObj [])),
      os_walk = (\<lambda>r. Some (Dir [(str ''a.py'', \<lparr>fsize = Some 3, ftext = Some (str ''x=1'')\<rparr>)]
                            [(str ''Readme_assets'',
                              Dir [(str ''logo.txt'', \<lparr>fsize = Some 2, ftext = Some (str ''hi'')\<rparr>)] [])])),
      isfile = (\<lambda>p. False),
      read_text = (\<lambda>p. None),
      call_gemini = (\<lambda>prompt. Inr [])\<rparr>"


section \<open>Properties of reports\<close>

text \<open>
  \<open>str_field kvs k s\<close>: in the dict \<open>kvs\<close> the key \<open>k\<close> holds the string \<open>s\<close>, or is
  absent and \<open>s\<close> is empty. \<open>report_verified\<close>: every evidence item of every
  category carries a boolean \<open>verified\<close>. \<open>report_ok\<close>: the shape described in C10.
\<close>

text \<open>
  The annotation of a report in the words of the specification, to compare
  \<open>verify_evidence\<close> with: \<open>spec_verified\<close> is the condition under which an item is
  verified, \<open>old_note\<close> the note it had, \<open>spec_item\<close> the annotated item, and
  \<open>spec_details\<close> and \<open>spec_report\<close> annotate every item of every category and
  leave everything else as it is.
\<close>

definition spec_verified :: "world \<Rightarrow> pystr \<Rightarrow> (pystr \<times> json) list \<Rightarrow> bool" where
  "spec_verified w project_root kvs \<longleftrightarrow>
     (case map_of kvs (str ''path'') of
        Some (JStr p) \<Rightarrow>
          p \<noteq> [] \<and> isfile w (path_join project_root p) \<and>
          (case read_text w (path_join project_root p) of
             Some text \<Rightarrow>
               (case map_of kvs (str ''snippet'') of
                  Some (JStr s) \<Rightarrow> strip s \<noteq> [] \<and> contains (strip s) text
                | _ \<Rightarrow> False)
           | None \<Rightarrow> False)
      | _ \<Rightarrow> False)"

definition old_note :: "(pystr \<times> json) list \<Rightarrow> pystr" where
  "old_note kvs = (case map_of kvs (str ''note'') of Some (JStr n) \<Rightarrow> n | _ \<Rightarrow> [])"

definition spec_item :: "world \<Rightarrow> pystr \<Rightarrow> json \<Rightarrow> json" where
  "spec_item w project_root ev =
     (case ev of
        JObj kvs \<Rightarrow>
          JObj (if spec_verified w project_root kvs
                then AList.update (str ''verified'') (JBool True) kvs
                else AList.update (str ''note'')
                       (JStr (strip (old_note kvs @ str '' [EVIDENCE NOT FOUND]'')))
                       (AList.update (str ''verified'') (JBool False) kvs))
      | other \<Rightarrow> other)"

definition spec_details :: "world \<Rightarrow> pystr \<Rightarrow> json \<Rightarrow> json" where
  "spec_details w project_root details =
     (case details of
        JObj dkv \<Rightarrow>
          JObj (AList.update (str ''evidence'')
                  (JArr (map (spec_item w project_root)
                           (case map_of dkv (str ''evidence'') of
                              Some (JArr evs) \<Rightarrow> evs
                            | _ \<Rightarrow> [])))
                  dkv)
      | other \<Rightarrow> other)"

definition spec_report :: "world \<Rightarrow> pystr \<Rightarrow> json \<Rightarrow> json" where
  "spec_report w project_root report =
     (case report of
        JObj rkv \<Rightarrow>
          JObj (AList.update (str ''criteria_scores'')
                  (JObj (map (\<lambda>cd. (fst cd, spec_details w project_root (snd cd)))
                           (case map_of rkv (str ''criteria_scores'') of
                              Some (JObj cs) \<Rightarrow> cs
                            | _ \<Rightarrow> [])))
                  rkv)
      | other \<Rightarrow> other)"

definition str_field :: "(pystr \<times> json) list \<Rightarrow> pystr \<Rightarrow> pystr \<Rightarrow> bool" where
  "str_field kvs k s \<longleftrightarrow> (case map_of kvs k of None \<Rightarrow> s = [] | Some v \<Rightarrow> v = JStr s)"

definition has_verified :: "json \<Rightarrow> bool" where
  "has_verified ev \<longleftrightarrow>
     (case ev of
        JObj kvs \<Rightarrow> (case map_of kvs (str ''verified'') of Some (JBool b) \<Rightarrow> True | _ \<Rightarrow> False)
      | _ \<Rightarrow> False)"

definition details_verified :: "json \<Rightarrow> bool" where
  "details_verified details \<longleftrightarrow>
     (case details of
        JObj dkv \<Rightarrow> (case map_of dkv (str ''evidence'') of
                       Some (JArr evs) \<Rightarrow> list_all has_verified evs
                     | _ \<Rightarrow> False)
      | _ \<Rightarrow> False)"

definition report_verified :: "json \<Rightarrow> bool" where
  "report_verified report \<longleftrightarrow>
     (case report of
        JObj rkv \<Rightarrow> (case map_of rkv (str ''criteria_scores'') of
                       Some (JObj cs) \<Rightarrow> list_all (\<lambda>cd. details_verified (snd cd)) cs
                     | _ \<Rightarrow> False)
      | _ \<Rightarrow> False)"

definition field_is_str :: "(pystr \<times> json) list \<Rightarrow> pystr \<Rightarrow> bool" where
  "field_is_str kvs k \<longleftrightarrow> (case map_of kvs k of None \<Rightarrow> True | Some (JStr s) \<Rightarrow> True | Some _ \<Rightarrow> False)"

definition item_ok :: "json \<Rightarrow> bool" where
  "item_ok ev \<longleftrightarrow>
     (case ev of JObj kvs \<Rightarrow> field_is_str kvs (str ''path'') \<and> field_is_str kvs (str ''note'')
      | _ \<Rightarrow> False)"

definition details_ok :: "json \<Rightarrow> bool" where
  "details_ok details \<longleftrightarrow>
     (case details of
        JObj dkv \<Rightarrow> (case map_of dkv (str ''evidence'') of
                       None \<Rightarrow> True
                     | Some (JArr evs) \<Rightarrow> list_all item_ok evs
                     | Some _ \<Rightarrow> False)
      | _ \<Rightarrow> False)"

definition report_ok :: "json \<Rightarrow> bool" where
  "report_ok report \<longleftrightarrow>
     (case report of
        JObj rkv \<Rightarrow> (case map_of rkv (str ''criteria_scores'') of
                       None \<Rightarrow> True
                     | Some (JObj cs) \<Rightarrow> list_all (\<lambda>cd. details_ok (snd cd)) cs
                     | Some _ \<Rightarrow> False)
      | _ \<Rightarrow> False)"


section \<open>Evaluation of the examples\<close>

lemmas example_defs = gather_files_def example_world_def example_tree_def example_lib_def
  norm_exts_def skip_dirs_def relpath_def sort_rank_def readme_first_def ascii_lower_def
  splitext_ext_def rindex_of_def

lemmas loads_defs = example_lib_def fragment_loads_def skip_ws_def number_def unsigned_int_def
  is_digit_def digits_value_def

lemmas verifier_defs = verify_item_def full_path_def dict_get_def snippet_found_def
  NOT_FOUND_def example_world_def path_join_def strip_def lstrip_def rstrip_def is_space_def

lemmas spec_defs = spec_report_def spec_details_def spec_item_def spec_verified_def old_note_def
  example_world_def path_join_def strip_def lstrip_def rstrip_def is_space_def


section \<open>Facts about strings\<close>

lemma index_of_None: "index_of c s = None \<longleftrightarrow> c \<notin> set s"
  by (induction s) auto

lemma index_of_first: "c \<notin> set pre \<Longrightarrow> index_of c (pre @ c # rest) = Some (length pre)"
  by (induction pre) auto

lemma index_of_Some:
  "index_of c s = Some i \<Longrightarrow> i < length s \<and> s ! i = c \<and> c \<notin> set (take i s)"
  by (induction s arbitrary: i) (auto split: if_splits)

lemma rindex_of_None: "rindex_of c s = None \<longleftrightarrow> c \<notin> set s"
  by (simp add: rindex_of_def index_of_None)

lemma rindex_of_last: "c \<notin> set post \<Longrightarrow> rindex_of c (pre @ c # post) = Some (length pre)"
proof -
  assume "c \<notin> set post"
  then have "index_of c (rev post @ c # rev pre) = Some (length (rev post))"
    by (intro index_of_first) simp
  then show ?thesis by (simp add: rindex_of_def)
qed

lemma dropWhile_keep: "\<not> P x \<Longrightarrow> dropWhile P (xs @ x # ys) = dropWhile P xs @ x # ys"
  by (induction xs) auto

lemma lstrip_keep: "\<not> is_space x \<Longrightarrow> lstrip (xs @ x # ys) = lstrip xs @ x # ys"
  by (simp add: lstrip_def dropWhile_keep)

lemma rstrip_keep: "\<not> is_space x \<Longrightarrow> rstrip (xs @ x # ys) = xs @ x # rstrip ys"
  by (simp add: rstrip_def dropWhile_keep)

lemma set_lstrip: "set (lstrip s) \<subseteq> set s"
  unfolding lstrip_def by (meson set_dropWhileD subsetI)

lemma set_rstrip: "set (rstrip s) \<subseteq> set s"
  unfolding rstrip_def using set_dropWhileD by fastforce

lemma set_strip: "set (strip s) \<subseteq> set s"
  unfolding strip_def using set_lstrip set_rstrip by blast

lemma not_space_braces: "\<not> is_space 123" "\<not> is_space 125"
  by (simp_all add: is_space_def)

lemma strip_around_object:
  "strip (pre @ [123] @ body @ [125] @ post) = lstrip pre @ [123] @ body @ [125] @ rstrip post"
proof -
  have "lstrip (pre @ 123 # (body @ 125 # post)) = lstrip pre @ 123 # (body @ 125 # post)"
    by (rule lstrip_keep) (rule not_space_braces)
  moreover have "rstrip ((lstrip pre @ 123 # body) @ 125 # post) = (lstrip pre @ 123 # body) @ 125 # rstrip post"
    by (rule rstrip_keep) (rule not_space_braces)
  ultimately show ?thesis by (simp add: strip_def)
qed

lemma contains_iff: "contains needle hay \<longleftrightarrow> (\<exists>a b. hay = a @ needle @ b)"
proof (induction hay)
  case Nil
  then show ?case by auto
next
  case (Cons h hs)
  show ?case
  proof
    assume "contains needle (h # hs)"
    then consider "prefix needle (h # hs)" | "contains needle hs" by auto
    then show "\<exists>a b. h # hs = a @ needle @ b"
    proof cases
      case 1
      then obtain b where "h # hs = needle @ b" by (auto simp: prefix_def)
      then have "h # hs = [] @ needle @ b" by simp
      then show ?thesis by blast
    next
      case 2
      then obtain a b where "hs = a @ needle @ b" using Cons.IH by blast
      then have "h # hs = (h # a) @ needle @ b" by simp
      then show ?thesis by blast
    qed
  next
    assume "\<exists>a b. h # hs = a @ needle @ b"
    then obtain a b where e: "h # hs = a @ needle @ b" by blast
    show "contains needle (h # hs)"
    proof (cases a)
      case Nil
      then have "prefix needle (h # hs)" using e by (metis append_Nil prefixI)
      then show ?thesis by simp
    next
      case (Cons x xs)
      then have "hs = xs @ needle @ b" using e by simp
      then show ?thesis using Cons.IH by auto
    qed
  qed
qed

lemma rstrip_snoc: "\<not> is_space x \<Longrightarrow> rstrip (xs @ [x]) = xs @ [x]"
  by (simp add: rstrip_def)

lemma strip_note_marker:
  "strip (n @ str '' [EVIDENCE NOT FOUND]'')
   = (if list_all is_space n then str ''[EVIDENCE NOT FOUND]''
      else lstrip n @ str '' [EVIDENCE NOT FOUND]'')"
proof -
  have m: "str '' [EVIDENCE NOT FOUND]'' = 32 # str ''[EVIDENCE NOT FOUND'' @ [93]" by simp
  have ns: "\<not> is_space 93" "\<not> is_space 91" "is_space 32" by (simp_all add: is_space_def)
  show ?thesis
  proof (cases "list_all is_space n")
    case True
    then have "lstrip (n @ str '' [EVIDENCE NOT FOUND]'') = lstrip (str '' [EVIDENCE NOT FOUND]'')"
      unfolding lstrip_def by (intro dropWhile_append2) (simp add: list_all_iff)
    also have "\<dots> = str ''[EVIDENCE NOT FOUND'' @ [93]"
      by (simp add: lstrip_def is_space_def)
    finally have "strip (n @ str '' [EVIDENCE NOT FOUND]'') = rstrip (str ''[EVIDENCE NOT FOUND'' @ [93])"
      by (simp add: strip_def)
    also have "\<dots> = str ''[EVIDENCE NOT FOUND'' @ [93]"
      by (rule rstrip_snoc) (rule ns)
    finally show ?thesis using True by simp
  next
    case False
    then obtain x where "x \<in> set n" "\<not> is_space x" by (auto simp: list_all_iff)
    then have "lstrip (n @ str '' [EVIDENCE NOT FOUND]'') = lstrip n @ str '' [EVIDENCE NOT FOUND]''"
      unfolding lstrip_def by (rule dropWhile_append1)
    then have "strip (n @ str '' [EVIDENCE NOT FOUND]'')
              = rstrip ((lstrip n @ 32 # str ''[EVIDENCE NOT FOUND'') @ [93])"
      by (simp add: strip_def)
    also have "\<dots> = (lstrip n @ 32 # str ''[EVIDENCE NOT FOUND'') @ [93]"
      by (rule rstrip_snoc) (rule ns)
    finally show ?thesis using False by simp
  qed
qed


section \<open>The File Selector\<close>

lemma scan_files_length:
  "length collected \<le> mf \<Longrightarrow> length (scan_files lib exts mf ms pre files collected) \<le> mf"
  by (induction lib exts mf ms pre files collected rule: scan_files.induct)
     (auto split: option.splits)

lemma scan_dirs_length:
  "length collected \<le> mf \<Longrightarrow> length (scan_dirs lib exts mf ms dirs collected) \<le> mf"
  by (induction lib exts mf ms dirs collected rule: scan_dirs.induct)
     (auto simp: Let_def scan_files_length)

lemma scan_files_sound:
  "e \<in> set (scan_files lib exts mf ms pre files collected) \<Longrightarrow>
   e \<in> set collected \<or>
   (\<exists>fname fd sz. (fname, fd) \<in> set files \<and> path e = relpath pre fname \<and>
      ftext fd = Some (content e) \<and> fsize fd = Some sz \<and> sz \<le> ms)"
proof (induction lib exts mf ms pre files collected rule: scan_files.induct)
  case (1 lib exts mf ms pre collected)
  then show ?case by simp
next
  case (2 lib exts mf ms pre fname fd rest collected)
  then show ?case
    by (fastforce split: if_splits option.splits)
qed

lemma scan_dirs_sound:
  "e \<in> set (scan_dirs lib exts mf ms dirs collected) \<Longrightarrow>
   e \<in> set collected \<or>
   (\<exists>pre files fname fd sz. (pre, files) \<in> set dirs \<and> (fname, fd) \<in> set files \<and>
      path e = relpath pre fname \<and> ftext fd = Some (content e) \<and> fsize fd = Some sz \<and> sz \<le> ms)"
proof (induction lib exts mf ms dirs collected rule: scan_dirs.induct)
  case (1 lib exts mf ms collected)
  then show ?case by simp
next
  case (2 lib exts mf ms pre files rest collected)
  let ?c = "scan_files lib exts mf ms pre files collected"
  from "2.prems" have "e \<in> set ?c \<or> (\<not> length ?c \<ge> mf \<and> e \<in> set (scan_dirs lib exts mf ms rest ?c))"
    by (auto simp: Let_def split: if_splits)
  then have "e \<in> set ?c \<or>
     (\<exists>pre files fname fd sz. (pre, files) \<in> set rest \<and> (fname, fd) \<in> set files \<and>
      path e = relpath pre fname \<and> ftext fd = Some (content e) \<and> fsize fd = Some sz \<and> sz \<le> ms)"
    using "2.IH" by blast
  then show ?case
    using scan_files_sound[of e lib exts mf ms pre files collected] by fastforce
qed

lemma visited_files_iff:
  "(pre, fname, fd) \<in> set (visited_files t) \<longleftrightarrow>
   (\<exists>files. (pre, files) \<in> set (walk [] t) \<and> (fname, fd) \<in> set files)"
  by (auto simp: visited_files_def)

text \<open>
  Claim C4. For every project tree and every configuration (allowed extensions,
  file-count ceiling, byte ceiling), \<open>gather_files\<close> returns at most \<open>max_files\<close>
  entries, and every entry returned is a file the walk visited: its path is the
  path of that file relative to the root, its content is the text read from it,
  and the size of that file on disk is at most \<open>max_size_bytes\<close>.
\<close>

theorem gather_files_ceilings:
  "length (gather_files lib w project_root include_exts max_files max_size_bytes) \<le> max_files \<and>
   (\<forall>e \<in> set (gather_files lib w project_root include_exts max_files max_size_bytes).
      \<exists>t pre fname fd sz. os_walk w project_root = Some t \<and>
        (pre, fname, fd) \<in> set (visited_files t) \<and>
        path e = relpath pre fname \<and> ftext fd = Some (content e) \<and>
        fsize fd = Some sz \<and> sz \<le> max_size_bytes)"
proof (cases "os_walk w project_root")
  case None
  then show ?thesis by (simp add: gather_files_def)
next
  case (Some t)
  let ?c = "scan_dirs lib (norm_exts include_exts) max_files max_size_bytes (walk [] t) []"
  have g: "gather_files lib w project_root include_exts max_files max_size_bytes
           = sort_key (sort_rank lib) ?c"
    by (simp add: gather_files_def Some)
  have len: "length ?c \<le> max_files"
    by (rule scan_dirs_length) simp
  have src: "\<exists>pre fname fd sz. (pre, fname, fd) \<in> set (visited_files t) \<and>
        path e = relpath pre fname \<and> ftext fd = Some (content e) \<and>
        fsize fd = Some sz \<and> sz \<le> max_size_bytes" if "e \<in> set ?c" for e
    using scan_dirs_sound[OF that] unfolding visited_files_iff by fastforce
  show ?thesis
    unfolding g using len src Some by simp
qed

text \<open>
  An instance: with the ceilings 1 and 5 bytes and the extension \<open>.py\<close>, the
  example project yields \<open>a.py\<close> alone (\<open>big.py\<close> has 9 bytes).
\<close>

theorem gather_files_ceilings_witness:
  "gather_files example_lib (example_world []) (str ''proj'') (Some [str ''.py'']) 1 5
     = [\<lparr>path = str ''a.py'', content = str ''x=1''\<rparr>]
   \<and> length (gather_files example_lib (example_world []) (str ''proj'') (Some [str ''.py'']) 1 5) \<le> 1
   \<and> (\<exists>t pre fname fd sz. os_walk (example_world []) (str ''proj'') = Some t \<and>
        (pre, fname, fd) \<in> set (visited_files t) \<and>
        str ''a.py'' = relpath pre fname \<and> ftext fd = Some (str ''x=1'') \<and>
        fsize fd = Some sz \<and> sz \<le> 5)"
proof -
  have v: "gather_files example_lib (example_world []) (str ''proj'') (Some [str ''.py'']) 1 5
           = [\<lparr>path = str ''a.py'', content = str ''x=1''\<rparr>]"
    by (simp add: example_defs)
  show ?thesis
    using gather_files_ceilings[of example_lib "example_world []" "str ''proj''" "Some [str ''.py'']" 1 5]
    unfolding v by simp
qed

text \<open>
  Claim C5, as the code has it. The output of \<open>gather_files\<close> is determined by the
  tree under the project root: two runs that find the same tree return the same
  list in the same order. The list is ordered by the sort key: an entry whose
  relative path, lowered, starts with \<open>readme\<close> comes before every entry whose path
  does not, and within each of the two groups the paths ascend in code-point
  order. The test is made on the relative path, which for a file in a
  subdirectory begins with the name of the directory, not on the file name.
\<close>

theorem gather_files_order:
  "(os_walk w project_root = os_walk w' project_root \<longrightarrow>
      gather_files lib w project_root include_exts max_files max_size_bytes
      = gather_files lib w' project_root include_exts max_files max_size_bytes)
   \<and> (\<forall>i j. i < j \<and> j < length (gather_files lib w project_root include_exts max_files max_size_bytes) \<longrightarrow>
        (prefix (str ''readme'')
           (str_lower lib (path (gather_files lib w project_root include_exts max_files max_size_bytes ! j)))
         \<longrightarrow> prefix (str ''readme'')
           (str_lower lib (path (gather_files lib w project_root include_exts max_files max_size_bytes ! i))))
      \<and> (prefix (str ''readme'')
           (str_lower lib (path (gather_files lib w project_root include_exts max_files max_size_bytes ! i)))
          = prefix (str ''readme'')
           (str_lower lib (path (gather_files lib w project_root include_exts max_files max_size_bytes ! j)))
         \<longrightarrow> path (gather_files lib w project_root include_exts max_files max_size_bytes ! i)
             \<le> path (gather_files lib w project_root include_exts max_files max_size_bytes ! j)))"
proof -
  let ?G = "gather_files lib w project_root include_exts max_files max_size_bytes"
  have A: "os_walk w project_root = os_walk w' project_root \<longrightarrow>
      ?G = gather_files lib w' project_root include_exts max_files max_size_bytes"
    by (simp add: gather_files_def)
  have B: "(prefix (str ''readme'') (str_lower lib (path (?G ! j)))
         \<longrightarrow> prefix (str ''readme'') (str_lower lib (path (?G ! i))))
      \<and> (prefix (str ''readme'') (str_lower lib (path (?G ! i)))
          = prefix (str ''readme'') (str_lower lib (path (?G ! j)))
         \<longrightarrow> path (?G ! i) \<le> path (?G ! j))"
    if a: "i < j \<and> j < length ?G" for i j
  proof -
    have "sorted (map (sort_rank lib) ?G)"
      by (cases "os_walk w project_root") (simp_all add: gather_files_def)
    then have "map (sort_rank lib) ?G ! i \<le> map (sort_rank lib) ?G ! j"
      using a by (simp add: sorted_iff_nth_mono)
    then have "sort_rank lib (?G ! i) \<le> sort_rank lib (?G ! j)"
      using a by simp
    then have "(readme_first lib (?G ! j) \<longrightarrow> readme_first lib (?G ! i))
      \<and> (readme_first lib (?G ! i) = readme_first lib (?G ! j) \<longrightarrow> path (?G ! i) \<le> path (?G ! j))"
      by (auto simp: sort_rank_def less_eq_prod_def split: if_splits)
    then show ?thesis
      unfolding readme_first_def .
  qed
  show ?thesis
  proof (rule conjI)
    show "os_walk w project_root = os_walk w' project_root \<longrightarrow>
      ?G = gather_files lib w' project_root include_exts max_files max_size_bytes"
      by (rule A)
    show "\<forall>i j. i < j \<and> j < length ?G \<longrightarrow>
        (prefix (str ''readme'') (str_lower lib (path (?G ! j)))
         \<longrightarrow> prefix (str ''readme'') (str_lower lib (path (?G ! i))))
      \<and> (prefix (str ''readme'') (str_lower lib (path (?G ! i)))
          = prefix (str ''readme'') (str_lower lib (path (?G ! j)))
         \<longrightarrow> path (?G ! i) \<le> path (?G ! j))"
      using B by blast
  qed
qed

text \<open>
  Instances: the example project gives the same list whatever the model answers,
  with \<open>Readme.txt\<close> first and \<open>a.py\<close> before \<open>big.py\<close>; and a file in a directory
  named \<open>Readme_assets\<close> comes first, because its path starts with \<open>readme\<close>.
\<close>

theorem gather_files_order_witness:
  "gather_files example_lib (example_world []) (str ''proj'') None 40 200000
     = gather_files example_lib (example_world (str ''reply'')) (str ''proj'') None 40 200000
   \<and> map path (gather_files example_lib (example_world []) (str ''proj'') None 40 200000)
     = [str ''Readme.txt'', str ''a.py'', str ''big.py'', str ''docs/README.md'']
   \<and> path (gather_files example_lib (example_world []) (str ''proj'') None 40 200000 ! 1)
       \<le> path (gather_files example_lib (example_world []) (str ''proj'') None 40 200000 ! 2)
   \<and> map path (gather_files example_lib readme_dir_world (str ''proj'') None 40 200000)
     = [str ''Readme_assets/logo.txt'', str ''a.py'']"
proof -
  let ?G = "gather_files example_lib (example_world []) (str ''proj'') None 40 200000"
  have v: "?G = [\<lparr>path = str ''Readme.txt'', content = str ''hi''\<rparr>, \<lparr>path = str ''a.py'', content = str ''x=1''\<rparr>,
                 \<lparr>path = str ''big.py'', content = str ''y = 12345''\<rparr>, \<lparr>path = str ''docs/README.md'', content = str ''# hi''\<rparr>]"
    by (simp add: example_defs)
  have w: "os_walk (example_world []) (str ''proj'') = os_walk (example_world (str ''reply'')) (str ''proj'')"
    by (simp add: example_world_def)
  have l: "(1::nat) < 2 \<and> 2 < length ?G" unfolding v by simp
  have p: "\<not> prefix (str ''readme'') (str_lower example_lib (path (?G ! 1)))"
          "\<not> prefix (str ''readme'') (str_lower example_lib (path (?G ! 2)))"
    unfolding v by (simp_all add: example_lib_def ascii_lower_def)
  note t = gather_files_order[of "example_world []" "str ''proj''" "example_world (str ''reply'')"
             example_lib None 40 200000]
  have d: "?G = gather_files example_lib (example_world (str ''reply'')) (str ''proj'') None 40 200000"
    using t w by blast
  have o: "path (?G ! 1) \<le> path (?G ! 2)"
    using t l p by blast
  have r: "map path (gather_files example_lib readme_dir_world (str ''proj'') None 40 200000)
     = [str ''Readme_assets/logo.txt'', str ''a.py'']"
    by (simp add: gather_files_def readme_dir_world_def example_lib_def norm_exts_def skip_dirs_def
          relpath_def sort_rank_def readme_first_def ascii_lower_def)
  show ?thesis using d o r v by simp
qed

text \<open>
  Claim C5 as stated fails for a readme-named file in a subdirectory: the name of
  \<open>docs/README.md\<close> starts with \<open>readme\<close>, yet the entry is sorted after \<open>a.py\<close> and
  \<open>big.py\<close>, whose names do not.
\<close>

theorem readme_in_subdirectory_counterexample:
  "map path (gather_files example_lib (example_world []) (str ''proj'') (Some [str ''.py'', str ''.md'']) 40 200000)
     = [str ''a.py'', str ''big.py'', str ''docs/README.md'']
   \<and> prefix (str ''readme'') (ascii_lower (basename (str ''docs/README.md'')))
   \<and> \<not> prefix (str ''readme'') (ascii_lower (basename (str ''a.py'')))"
  by (simp add: example_defs basename_def)


section \<open>The Prompt Builder\<close>

lemma replace_fence_Cons: "c \<noteq> 96 \<Longrightarrow> replace_fence (c # b) = c # replace_fence b"
proof (cases b)
  case Nil then show ?thesis by simp
next
  case (Cons x xs)
  assume "c \<noteq> 96"
  then show ?thesis using Cons by (cases xs) auto
qed

lemma replace_fence_Cons2: "c \<noteq> 96 \<Longrightarrow> replace_fence (x # c # b) = x # c # replace_fence b"
  by (cases b) (auto simp: replace_fence_Cons)

lemma replace_fence_Cons3: "c \<noteq> 96 \<Longrightarrow> replace_fence (x # y # c # b) = x # y # c # replace_fence b"
  by (simp add: replace_fence_Cons2)

lemma replace_fence_append_Cons:
  "c \<noteq> 96 \<Longrightarrow> replace_fence (a @ c # b) = replace_fence a @ c # replace_fence b"
proof (induction a rule: replace_fence.induct)
  case (1 x y z rest)
  then show ?case by auto
qed (simp_all add: replace_fence_Cons replace_fence_Cons2 replace_fence_Cons3
      del: replace_fence.simps(1))

lemma replace_fence_plain_prefix:
  "96 \<notin> set m \<Longrightarrow> replace_fence (m @ b) = m @ replace_fence b"
  by (induction m) (auto simp: replace_fence_Cons simp del: replace_fence.simps(1))

lemma replace_fence_plain: "96 \<notin> set c \<Longrightarrow> replace_fence c = c"
  using replace_fence_plain_prefix[of c "[]"] by simp

lemma replace_fence_SNIPPED:
  "replace_fence (a @ SNIPPED @ b) = replace_fence a @ SNIPPED @ replace_fence b"
proof -
  have s: "SNIPPED = 10 # tl SNIPPED" and t: "96 \<notin> set (tl SNIPPED)"
    by (simp_all add: SNIPPED_def)
  have "replace_fence (a @ SNIPPED @ b) = replace_fence (a @ 10 # (tl SNIPPED @ b))"
    using s by (metis append_Cons)
  also have "\<dots> = replace_fence a @ 10 # replace_fence (tl SNIPPED @ b)"
    by (rule replace_fence_append_Cons) simp
  also have "\<dots> = replace_fence a @ 10 # (tl SNIPPED @ replace_fence b)"
    using replace_fence_plain_prefix[OF t] by simp
  also have "\<dots> = replace_fence a @ SNIPPED @ replace_fence b"
    using s by (metis append_Cons)
  finally show ?thesis .
qed

lemma replace_fence_no_fence: "\<not> contains [96, 96, 96] c \<Longrightarrow> replace_fence c = c"
  by (induction c rule: replace_fence.induct) auto

text \<open>
  Claim C7. For every file entry the loop of \<open>build_prompt\<close> renders: when the
  content is longer than 6000 characters, the block is the header, the first 3000
  characters, the elision marker, the last 3000 characters and a newline; a
  content of at most 6000 characters (of exactly 6000 in particular) is rendered
  whole; in both cases apart from the escaping of backtick fences, which leaves a
  content without fences as it is. A content of 6001 characters falls under the
  first case.
\<close>

theorem file_block_truncation:
  "(length (content f) > 6000 \<longrightarrow>
      file_block f = str ''---FILE: '' @ path f @ str ''---\<newline>''
        @ replace_fence (take 3000 (content f))
        @ str ''\<newline>\<newline>...<<SNIPPED MIDDLE>>...\<newline>\<newline>''
        @ replace_fence (drop (length (content f) - 3000) (content f)) @ [10])
   \<and> (length (content f) \<le> 6000 \<longrightarrow>
      file_block f = str ''---FILE: '' @ path f @ str ''---\<newline>''
        @ replace_fence (content f) @ [10])
   \<and> (\<not> contains [96, 96, 96] (content f) \<longrightarrow> replace_fence (content f) = content f)"
proof -
  have "replace_fence (take 3000 (content f) @ SNIPPED @ drop (length (content f) - 3000) (content f))
        = replace_fence (take 3000 (content f)) @ SNIPPED
          @ replace_fence (drop (length (content f) - 3000) (content f))"
    by (rule replace_fence_SNIPPED)
  moreover have "SNIPPED = str ''\<newline>\<newline>...<<SNIPPED MIDDLE>>...\<newline>\<newline>''"
    by (simp add: SNIPPED_def)
  ultimately show ?thesis
    by (simp add: file_block_def truncate_content_def replace_fence_no_fence)
qed

text \<open>
  The boundary: a content of 6001 characters is rendered as prefix, marker and
  suffix; one of 6000 characters is rendered unmodified.
\<close>

theorem file_block_truncation_witness:
  "length (replicate 6001 (120::nat)) > 6000
   \<and> file_block \<lparr>path = str ''big.txt'', content = replicate 6001 120\<rparr>
       = str ''---FILE: big.txt---\<newline>'' @ replicate 3000 120
         @ str ''\<newline>\<newline>...<<SNIPPED MIDDLE>>...\<newline>\<newline>''
         @ replicate 3000 120 @ [10]
   \<and> file_block \<lparr>path = str ''big.txt'', content = replicate 6000 120\<rparr>
       = str ''---FILE: big.txt---\<newline>'' @ replicate 6000 120 @ [10]"
proof -
  have p: "replace_fence (replicate n 120) = replicate n 120" for n
    by (rule replace_fence_plain) simp
  show ?thesis
    using file_block_truncation[of "\<lparr>path = str ''big.txt'', content = replicate 6001 120\<rparr>"]
          file_block_truncation[of "\<lparr>path = str ''big.txt'', content = replicate 6000 120\<rparr>"]
    by (simp add: p)
qed

lemma dump_loop_store: "fst (dump_loop file_entries i limited_dump) = file_entries"
  by (induction file_entries i limited_dump rule: dump_loop.induct)
     (subst dump_loop.simps, simp)

lemma dump_loop_blocks:
  "snd (dump_loop file_entries i limited_dump) = limited_dump @ map file_block (drop i file_entries)"
proof (induction file_entries i limited_dump rule: dump_loop.induct)
  case (1 file_entries i limited_dump)
  show ?case
  proof (cases "i < length file_entries")
    case True
    then show ?thesis
      using 1 by (subst dump_loop.simps) (simp add: Cons_nth_drop_Suc[symmetric])
  next
    case False
    then show ?thesis by (subst dump_loop.simps) simp
  qed
qed

text \<open>
  Claim C8. For every criteria, role and sequence of file entries, the entries are
  after \<open>build_prompt\<close> what they were before it: truncation and escaping work on
  the local \<open>content\<close> only. This holds although \<open>build_prompt\<close> ends in an
  exception (see \<open>build_prompt_KeyError\<close>).
\<close>

theorem build_prompt_frame:
  "fst (build_prompt lib criteria role file_entries) = file_entries"
  using dump_loop_store[of file_entries 0 "[]"]
  by (simp add: build_prompt_def split_def Let_def)

text \<open>
  \<open>PROMPT_TEMPLATE\<close> shows the shape of the answer with single braces, so
  \<open>str.format\<close> reads the shape as a replacement field named by the text up to its
  first colon, finds no such keyword argument and raises KeyError: \<open>build_prompt\<close>
  returns no prompt, whatever its arguments.
\<close>

lemma fmt_run_lit:
  "123 \<notin> set pre \<Longrightarrow> 125 \<notin> set pre \<Longrightarrow> fmt_run kw Lit out (pre @ rest) = fmt_run kw Lit (out @ pre) rest"
  by (induction pre arbitrary: out) auto

lemma brace_in_str: "(123::nat) \<in> set (str s) \<longleftrightarrow> CHR ''{'' \<in> set s"
proof -
  have "(123::nat) = of_char (CHR ''{'')" by simp
  then show ?thesis by (auto simp only: set_map image_iff of_char_eq_iff)
qed

lemma close_brace_in_str: "(125::nat) \<in> set (str s) \<longleftrightarrow> CHR ''}'' \<in> set s"
proof -
  have "(125::nat) = of_char (CHR ''}'')" by simp
  then show ?thesis by (auto simp only: set_map image_iff of_char_eq_iff)
qed

lemma template_split:
  "PROMPT_TEMPLATE = str (concat (take 14 PROMPT_TEMPLATE_LINES)) @ str (concat (drop 14 PROMPT_TEMPLATE_LINES))"
  unfolding PROMPT_TEMPLATE_def by (metis append_take_drop_id concat_append map_append)

lemma template_head:
  "123 \<notin> set (str (concat (take 14 PROMPT_TEMPLATE_LINES))) \<and> 125 \<notin> set (str (concat (take 14 PROMPT_TEMPLATE_LINES)))"
  unfolding brace_in_str close_brace_in_str by (simp add: PROMPT_TEMPLATE_LINES_def)

lemma template_field:
  "map_of kw (str ''\<newline>    \"role\"'') = None \<Longrightarrow>
   fmt_run kw Lit out (str (concat (drop 14 PROMPT_TEMPLATE_LINES))) = Inl (KeyError (str ''\<newline>    \"role\"''))"
  by (simp add: PROMPT_TEMPLATE_LINES_def name_char_def render_field_def)

lemma py_format_template:
  assumes "map_of kw (str ''\<newline>    \"role\"'') = None"
  shows "py_format PROMPT_TEMPLATE kw = Inl (KeyError (str ''\<newline>    \"role\"''))"
proof -
  have "py_format PROMPT_TEMPLATE kw
        = fmt_run kw Lit ([] @ str (concat (take 14 PROMPT_TEMPLATE_LINES))) (str (concat (drop 14 PROMPT_TEMPLATE_LINES)))"
    unfolding py_format_def using template_head fmt_run_lit template_split by metis
  then show ?thesis using template_field[OF assms] by simp
qed

lemma build_prompt_KeyError:
  "snd (build_prompt lib criteria role file_entries) = Inl (KeyError (str ''\<newline>    \"role\"''))"
proof -
  have "map_of [(str ''criteria_json'', a), (str ''role'', b), (str ''files_dump'', c)] (str ''\<newline>    \"role\"'') = None" for a b c :: pystr
    by simp
  then show ?thesis
    by (simp add: build_prompt_def split_def Let_def py_format_template)
qed


section \<open>The Response Parser\<close>

lemma bracket_attempt_object:
  assumes "123 \<notin> set pre" "125 \<notin> set post"
  shows "bracket_attempt lib (strip (pre @ [123] @ body @ [125] @ post))
         = (case json_loads lib ([123] @ body @ [125]) of Inl e \<Rightarrow> None | Inr v \<Rightarrow> Some v)"
proof -
  let ?t = "lstrip pre @ [123] @ body @ [125] @ rstrip post"
  have a: "123 \<notin> set (lstrip pre)" and b: "125 \<notin> set (rstrip post)"
    using assms set_lstrip set_rstrip by blast+
  have i: "index_of 123 ?t = Some (length (lstrip pre))"
    using index_of_first[OF a, of "body @ [125] @ rstrip post"] by simp
  have k: "rindex_of 125 ?t = Some (length (lstrip pre) + length body + 1)"
    using rindex_of_last[OF b, of "lstrip pre @ [123] @ body"] by simp
  have s: "slice (length (lstrip pre)) (length (lstrip pre) + length body + 1 + 1) ?t = [123] @ body @ [125]"
    by (simp add: slice_def)
  show ?thesis
    unfolding strip_around_object bracket_attempt_def i k using s by simp
qed

text \<open>
  Claim C2, as the code has it. For every raw output, the parser first tries the
  substring of the trimmed text from its first \<open>{\<close> to its last \<open>}\<close>; when there is
  no such substring or \<open>json.loads\<close> rejects it, the parser tries the whole trimmed
  text. In particular, a text made of prose, one JSON object and prose parses to
  that object, provided the leading prose has no \<open>{\<close> and the trailing prose no
  \<open>}\<close>.
\<close>

theorem parse_response_strategy:
  "(\<forall>i k v. index_of 123 (strip raw_output) = Some i \<and> rindex_of 125 (strip raw_output) = Some k
       \<and> json_loads lib (slice i (k + 1) (strip raw_output)) = Inr v
       \<longrightarrow> parse_response lib raw_output = Inr v)
   \<and> ((index_of 123 (strip raw_output) = None \<or> rindex_of 125 (strip raw_output) = None
        \<or> (\<exists>i k e. index_of 123 (strip raw_output) = Some i \<and> rindex_of 125 (strip raw_output) = Some k
              \<and> json_loads lib (slice i (k + 1) (strip raw_output)) = Inl e))
       \<longrightarrow> (\<forall>v. json_loads lib (strip raw_output) = Inr v \<longrightarrow> parse_response lib raw_output = Inr v))
   \<and> (\<forall>pre body post v. raw_output = pre @ [123] @ body @ [125] @ post
       \<and> 123 \<notin> set pre \<and> 125 \<notin> set post \<and> json_loads lib ([123] @ body @ [125]) = Inr v
       \<longrightarrow> parse_response lib raw_output = Inr v)"
proof (intro conjI allI impI)
  fix i k v
  assume "index_of 123 (strip raw_output) = Some i \<and> rindex_of 125 (strip raw_output) = Some k
       \<and> json_loads lib (slice i (k + 1) (strip raw_output)) = Inr v"
  then show "parse_response lib raw_output = Inr v"
    by (simp add: parse_response_def bracket_attempt_def)
next
  fix v
  assume f: "index_of 123 (strip raw_output) = None \<or> rindex_of 125 (strip raw_output) = None
        \<or> (\<exists>i k e. index_of 123 (strip raw_output) = Some i \<and> rindex_of 125 (strip raw_output) = Some k
              \<and> json_loads lib (slice i (k + 1) (strip raw_output)) = Inl e)"
    and l: "json_loads lib (strip raw_output) = Inr v"
  from f have "bracket_attempt lib (strip raw_output) = None"
    by (auto simp: bracket_attempt_def split: option.splits)
  then show "parse_response lib raw_output = Inr v"
    using l by (simp add: parse_response_def)
next
  fix pre body post v
  assume h: "raw_output = pre @ [123] @ body @ [125] @ post
       \<and> 123 \<notin> set pre \<and> 125 \<notin> set post \<and> json_loads lib ([123] @ body @ [125]) = Inr v"
  then have "bracket_attempt lib (strip raw_output) = Some v"
    using bracket_attempt_object[of pre post lib body] by simp
  then show "parse_response lib raw_output = Inr v"
    by (simp add: parse_response_def)
qed

text \<open>
  An instance: the text \<open>Sure! Here you go:\<close>, an object, \<open>Thanks!\<close>.
\<close>

theorem parse_response_strategy_witness:
  "parse_response example_lib (str ''Sure! Here you go:\<newline>{\"role\":\"intern\"}\<newline>Thanks!'')
     = Inr (JObj [(str ''role'', JStr (str ''intern''))])"
proof -
  have l: "json_loads example_lib ([123] @ str ''\"role\":\"intern\"'' @ [125])
           = Inr (JObj [(str ''role'', JStr (str ''intern''))])"
    by (simp add: loads_defs)
  have r: "str ''Sure! Here you go:\<newline>{\"role\":\"intern\"}\<newline>Thanks!''
           = str ''Sure! Here you go:\<newline>'' @ [123] @ str ''\"role\":\"intern\"'' @ [125] @ str ''\<newline>Thanks!''"
    by simp
  have n: "123 \<notin> set (str ''Sure! Here you go:\<newline>'')" "125 \<notin> set (str ''\<newline>Thanks!'')"
    by simp_all
  show ?thesis
    using parse_response_strategy[of "str ''Sure! Here you go:\<newline>{\"role\":\"intern\"}\<newline>Thanks!''" example_lib] r n l
    by blast
qed

text \<open>
  Claim C2 as stated fails when the prose has a brace of its own: the substring
  from the first \<open>{\<close> to the last \<open>}\<close> then starts in the prose, neither attempt
  parses, and the object in the text is not returned.
\<close>

theorem prose_with_brace_counterexample:
  "json_loads example_lib (str ''{\"role\":\"intern\"}'')
     = Inr (JObj [(str ''role'', JStr (str ''intern''))])
   \<and> isl (parse_response example_lib
              (str ''Result for {repo}: {\"role\":\"intern\"} Thanks!''))"
  by (simp add: parse_response_def bracket_attempt_def rindex_of_def slice_def
        strip_def lstrip_def rstrip_def is_space_def loads_defs)

text \<open>
  Claim C3, as the code has it. For every raw output with no \<open>{\<close> and no \<open>}\<close>:
  when \<open>json.loads\<close> rejects the trimmed text, the run from the parsing on fails
  with the RuntimeError whose message is the fixed preamble, the first 2000
  characters of the trimmed text and the text of the parse error; and whenever
  \<open>json.loads\<close> does not turn the trimmed text into an object (it turns no text
  without braces into one), no report is returned.
\<close>

theorem parse_response_no_braces:
  assumes "123 \<notin> set raw_output" and "125 \<notin> set raw_output"
  shows "(\<forall>e. json_loads lib (strip raw_output) = Inl e \<longrightarrow>
            finish_report lib w project_root raw_output files
            = ([], Inl (RuntimeError
                 (str ''Failed to parse JSON from model output. Raw output first 2000 chars:\<newline>''
                  @ take 2000 (strip raw_output) @ str ''\<newline>\<newline>Error:'' @ e))))
       \<and> ((\<forall>kvs. json_loads lib (strip raw_output) \<noteq> Inr (JObj kvs)) \<longrightarrow>
            isl (snd (finish_report lib w project_root raw_output files)))"
proof -
  have "123 \<notin> set (strip raw_output)"
    using assms(1) set_strip by blast
  then have b: "bracket_attempt lib (strip raw_output) = None"
    by (simp add: bracket_attempt_def index_of_None[symmetric])
  have p: "parse_response lib raw_output
           = (case json_loads lib (strip raw_output) of
                Inr v \<Rightarrow> Inr v
              | Inl e \<Rightarrow> Inl (RuntimeError (parse_failure (strip raw_output) e)))"
    by (simp add: parse_response_def b Let_def)
  have one: "finish_report lib w project_root raw_output files
            = ([], Inl (RuntimeError
                 (str ''Failed to parse JSON from model output. Raw output first 2000 chars:\<newline>''
                  @ take 2000 (strip raw_output) @ str ''\<newline>\<newline>Error:'' @ e)))"
    if "json_loads lib (strip raw_output) = Inl e" for e
    using that by (simp add: finish_report_def p parse_failure_def)
  have two: "isl (snd (finish_report lib w project_root raw_output files))"
    if n: "\<forall>kvs. json_loads lib (strip raw_output) \<noteq> Inr (JObj kvs)"
  proof (cases "json_loads lib (strip raw_output)")
    case (Inl e)
    then show ?thesis by (simp add: finish_report_def p)
  next
    case (Inr v)
    with n have "verify_evidence w project_root v = Inl AttributeError"
      by (cases v) (auto simp: verify_evidence_def)
    then show ?thesis using Inr by (simp add: finish_report_def p)
  qed
  show ?thesis using one two by blast
qed

text \<open>
  Instances: \<open>hello\<close> between spaces fails with the message built from the
  trimmed text; \<open>[1, 2]\<close> parses, and no report is returned.
\<close>

theorem parse_response_no_braces_witness:
  "finish_report example_lib (example_world []) (str ''proj'') (str ''  hello '') []
     = ([], Inl (RuntimeError
          (str ''Failed to parse JSON from model output. Raw output first 2000 chars:\<newline>hello\<newline>\<newline>Error:Expecting value'')))
   \<and> isl (snd (finish_report example_lib (example_world []) (str ''proj'') (str ''[1, 2]'') []))"
proof -
  have s1: "strip (str ''  hello '') = str ''hello''" and s2: "strip (str ''[1, 2]'') = str ''[1, 2]''"
    by (simp_all add: strip_def lstrip_def rstrip_def is_space_def)
  have l1: "json_loads example_lib (str ''hello'') = Inl (str ''Expecting value'')"
    by (simp add: loads_defs)
  have l2: "json_loads example_lib (str ''[1, 2]'') = Inr (JArr [JInt 1, JInt 2])"
    by (simp add: loads_defs)
  have a: "123 \<notin> set (str ''  hello '')" "125 \<notin> set (str ''  hello '')"
    and b: "123 \<notin> set (str ''[1, 2]'')" "125 \<notin> set (str ''[1, 2]'')"
    by simp_all
  show ?thesis
    using parse_response_no_braces[OF a, of example_lib "example_world []" "str ''proj''" "[]"]
          parse_response_no_braces[OF b, of example_lib "example_world []" "str ''proj''" "[]"]
    unfolding s1 s2 l1 l2 by simp
qed

text \<open>
  Claim C3 as stated fails on the raw output \<open>123\<close>: it has no brace, the
  fallback parses it, so no diagnostic error is raised; the Verifier then fails
  with AttributeError on the number.
\<close>

theorem brace_free_number_counterexample:
  "123 \<notin> set (str ''123'') \<and> 125 \<notin> set (str ''123'')
   \<and> parse_response example_lib (str ''123'') = Inr (JInt 123)
   \<and> finish_report example_lib (example_world []) (str ''proj'') (str ''123'') []
       = ([VerifyFiles (str ''proj'')], Inl AttributeError)"
  by (simp add: finish_report_def parse_response_def bracket_attempt_def verify_evidence_def
        strip_def lstrip_def rstrip_def is_space_def loads_defs)


section \<open>The Evidence Verifier\<close>

lemma strip_Nil: "strip [] = []"
  by (simp add: strip_def lstrip_def rstrip_def)

lemma verify_item_unfold:
  assumes "str_field kvs (str ''path'') p" and "str_field kvs (str ''note'') n"
  shows "verify_item w project_root (JObj kvs)
         = (if p \<noteq> [] \<and> isfile w (path_join project_root p)
               \<and> snippet_found w (path_join project_root p) (dict_get kvs (str ''snippet'') (JStr []))
            then Inr (JObj (AList.update (str ''verified'') (JBool True) kvs))
            else Inr (JObj (AList.update (str ''note'')
                              (JStr (strip (n @ str '' [EVIDENCE NOT FOUND]'')))
                              (AList.update (str ''verified'') (JBool False) kvs))))"
proof -
  have fp: "full_path project_root (dict_get kvs (str ''path'') JNull)
            = Inr (if p = [] then None else Some (path_join project_root p))"
    using assms(1) by (auto simp: str_field_def dict_get_def full_path_def split: option.splits)
  have nt: "dict_get (AList.update (str ''verified'') v kvs) (str ''note'') (JStr []) = JStr n" for v
    using assms(2) by (auto simp: str_field_def dict_get_def update_conv' split: option.splits)
  show ?thesis
    apply (simp only: verify_item_def json.case fp nt Let_def sum.case)
    apply (auto simp: NOT_FOUND_def split: option.splits)
    done
qed

lemma item_ok_fields:
  "item_ok (JObj kvs) \<Longrightarrow> \<exists>p n. str_field kvs (str ''path'') p \<and> str_field kvs (str ''note'') n"
  by (auto simp: item_ok_def field_is_str_def str_field_def split: option.splits json.splits)

lemma verify_item_ok: "item_ok ev \<Longrightarrow> \<exists>ev'. verify_item w project_root ev = Inr ev'"
proof (cases ev)
  case (JObj kvs)
  assume "item_ok ev"
  then obtain p n where "str_field kvs (str ''path'') p" "str_field kvs (str ''note'') n"
    using JObj item_ok_fields by blast
  then show ?thesis
    unfolding JObj using verify_item_unfold[of kvs p n w project_root] by auto
qed (auto simp: item_ok_def)

lemma verify_items_ok:
  "list_all item_ok evs \<Longrightarrow> \<exists>evs'. verify_items w project_root evs = Inr evs'"
proof (induction evs)
  case Nil
  then show ?case by simp
next
  case (Cons ev evs)
  then obtain ev' evs' where "verify_item w project_root ev = Inr ev'"
      "verify_items w project_root evs = Inr evs'"
    using verify_item_ok[of ev w project_root] by auto
  then show ?case by simp
qed

lemma verify_details_ok:
  "details_ok details \<Longrightarrow> \<exists>d'. verify_details w project_root details = Inr d'"
proof (cases details)
  case (JObj dkv)
  assume ok: "details_ok details"
  show ?thesis
  proof (cases "map_of dkv (str ''evidence'')")
    case None
    then show ?thesis by (simp add: JObj verify_details_def dict_get_def)
  next
    case (Some e)
    with ok JObj obtain evs where e: "e = JArr evs" and "list_all item_ok evs"
      by (auto simp: details_ok_def split: json.splits)
    then obtain evs' where "verify_items w project_root evs = Inr evs'"
      using verify_items_ok by blast
    then show ?thesis using Some e by (simp add: JObj verify_details_def dict_get_def)
  qed
qed (auto simp: details_ok_def)

lemma verify_cats_ok:
  "list_all (\<lambda>cd. details_ok (snd cd)) cs \<Longrightarrow> \<exists>cs'. verify_cats w project_root cs = Inr cs'"
proof (induction cs)
  case Nil
  then show ?case by simp
next
  case (Cons cd cs)
  obtain cat details where cd: "cd = (cat, details)" by (cases cd)
  from Cons cd obtain d' cs' where "verify_details w project_root details = Inr d'"
      "verify_cats w project_root cs = Inr cs'"
    using verify_details_ok[of details w project_root] by auto
  then show ?case by (simp add: cd)
qed

lemma verify_evidence_ok:
  "report_ok report \<Longrightarrow> \<exists>r'. verify_evidence w project_root report = Inr r'"
proof (cases report)
  case (JObj rkv)
  assume ok: "report_ok report"
  show ?thesis
  proof (cases "map_of rkv (str ''criteria_scores'')")
    case None
    then show ?thesis by (simp add: JObj verify_evidence_def dict_get_def)
  next
    case (Some c)
    with ok JObj obtain cs where c: "c = JObj cs" and "list_all (\<lambda>cd. details_ok (snd cd)) cs"
      by (auto simp: report_ok_def split: json.splits)
    then obtain cs' where "verify_cats w project_root cs = Inr cs'"
      using verify_cats_ok by blast
    then show ?thesis using Some c by (simp add: JObj verify_evidence_def dict_get_def)
  qed
qed (auto simp: report_ok_def)

lemma snippet_found_eq:
  "snippet_found w f (dict_get kvs (str ''snippet'') (JStr []))
   = (case read_text w f of
        Some text \<Rightarrow>
          (case map_of kvs (str ''snippet'') of
             Some (JStr s) \<Rightarrow> strip s \<noteq> [] \<and> contains (strip s) text
           | _ \<Rightarrow> False)
      | None \<Rightarrow> False)"
  by (simp add: snippet_found_def dict_get_def strip_Nil split: option.splits json.splits)

lemma full_path_Inr:
  "full_path project_root (dict_get kvs (str ''path'') JNull) = Inr fp
   \<Longrightarrow> fp = (case map_of kvs (str ''path'') of
               Some (JStr p) \<Rightarrow> if p = [] then None else Some (path_join project_root p)
             | _ \<Rightarrow> None)"
  by (auto simp: full_path_def dict_get_def split: option.splits json.splits if_splits)

lemma spec_verified_eq:
  assumes "full_path project_root (dict_get kvs (str ''path'') JNull) = Inr fp"
  shows "spec_verified w project_root kvs
         = (case fp of None \<Rightarrow> False
            | Some f \<Rightarrow> isfile w f \<and> snippet_found w f (dict_get kvs (str ''snippet'') (JStr [])))"
proof -
  have fpv: "fp = (case map_of kvs (str ''path'') of
               Some (JStr p) \<Rightarrow> if p = [] then None else Some (path_join project_root p)
             | _ \<Rightarrow> None)"
    by (rule full_path_Inr[OF assms])
  show ?thesis
  proof (cases "map_of kvs (str ''path'')")
    case None
    then show ?thesis using fpv by (simp add: spec_verified_def)
  next
    case (Some v)
    show ?thesis
    proof (cases v)
      case (JStr p)
      show ?thesis
      proof (cases "p = []")
        case True
        then show ?thesis using fpv Some JStr by (simp add: spec_verified_def)
      next
        case False
        then show ?thesis
          using fpv Some JStr snippet_found_eq[of w "path_join project_root p" kvs]
          by (simp add: spec_verified_def)
      qed
    qed (use fpv Some in \<open>simp_all add: spec_verified_def\<close>)
  qed
qed

lemma old_note_eq:
  "dict_get (AList.update (str ''verified'') v kvs) (str ''note'') (JStr []) = JStr n
   \<Longrightarrow> n = old_note kvs"
  by (auto simp: dict_get_def old_note_def update_conv' split: option.splits json.splits)

lemma verify_item_spec:
  assumes h: "verify_item w project_root ev = Inr ev'"
  shows "ev' = spec_item w project_root ev"
proof (cases ev)
  case (JObj kvs)
  obtain fp where fp: "full_path project_root (dict_get kvs (str ''path'') JNull) = Inr fp"
    using h
    by (cases "full_path project_root (dict_get kvs (str ''path'') JNull)")
       (simp_all add: verify_item_def JObj)
  show ?thesis
  proof (cases "spec_verified w project_root kvs")
    case True
    have "verify_item w project_root ev
          = Inr (JObj (AList.update (str ''verified'') (JBool True) kvs))"
      unfolding JObj verify_item_def json.case fp sum.case Let_def
        spec_verified_eq[OF fp, symmetric]
      using True by simp
    with h have "ev' = JObj (AList.update (str ''verified'') (JBool True) kvs)"
      by simp
    then show ?thesis
      using True by (simp add: spec_item_def JObj)
  next
    case False
    then have sf: "spec_verified w project_root kvs = False"
      by simp
    have u: "verify_item w project_root ev
          = (case dict_get (AList.update (str ''verified'') (JBool False) kvs)
                    (str ''note'') (JStr []) of
               JStr n \<Rightarrow>
                 Inr (JObj (AList.update (str ''note'') (JStr (strip (n @ NOT_FOUND)))
                              (AList.update (str ''verified'') (JBool False) kvs)))
             | _ \<Rightarrow> Inl TypeError)"
      unfolding JObj verify_item_def json.case fp sum.case Let_def
        spec_verified_eq[OF fp, symmetric] sf if_False
      by simp
    obtain n where n: "dict_get (AList.update (str ''verified'') (JBool False) kvs)
                              (str ''note'') (JStr []) = JStr n"
      and e: "ev' = JObj (AList.update (str ''note'') (JStr (strip (n @ NOT_FOUND)))
                        (AList.update (str ''verified'') (JBool False) kvs))"
      using h unfolding u by (auto split: json.splits)
    have "n = old_note kvs"
      using n by (rule old_note_eq)
    then show ?thesis
      using False e by (simp add: spec_item_def JObj NOT_FOUND_def)
  qed
qed (use h in \<open>simp_all add: verify_item_def\<close>)

lemma verify_items_spec:
  "verify_items w project_root evs = Inr evs' \<Longrightarrow> evs' = map (spec_item w project_root) evs"
proof (induction evs arbitrary: evs')
  case Nil
  then show ?case by simp
next
  case (Cons ev evs)
  from Cons.prems obtain e' rest' where e: "verify_item w project_root ev = Inr e'"
    and r: "verify_items w project_root evs = Inr rest'" and c: "evs' = e' # rest'"
    by (auto split: sum.splits)
  show ?case
    using verify_item_spec[OF e] Cons.IH[OF r] by (simp add: c)
qed

lemma verify_items_not_dicts:
  assumes "verify_items w project_root (map g xs) = Inr evs'"
    and "\<And>x. verify_item w project_root (g x) = Inl AttributeError"
  shows "xs = [] \<and> evs' = []"
  using assms by (cases xs) auto

lemma verify_details_spec:
  assumes "verify_details w project_root details = Inr d'"
  shows "d' = spec_details w project_root details"
proof (cases details)
  case (JObj dkv)
  show ?thesis
  proof (cases "map_of dkv (str ''evidence'')")
    case None
    then show ?thesis
      using assms by (simp add: JObj verify_details_def spec_details_def dict_get_def)
  next
    case (Some e)
    show ?thesis
    proof (cases e)
      case (JArr evs)
      from assms obtain new where n: "verify_items w project_root evs = Inr new"
        and d: "d' = JObj (AList.update (str ''evidence'') (JArr new) dkv)"
        using Some JArr
        by (auto simp: JObj verify_details_def dict_get_def split: sum.splits)
      show ?thesis
        using verify_items_spec[OF n] Some JArr
        by (simp add: d JObj spec_details_def)
    next
      case (JStr s)
      from assms obtain new where n: "verify_items w project_root (map (\<lambda>c. JStr [c]) s) = Inr new"
        and d: "d' = JObj (AList.update (str ''evidence'') (JArr new) dkv)"
        using Some JStr
        by (auto simp: JObj verify_details_def dict_get_def split: sum.splits)
      have "s = [] \<and> new = []"
        using n by (rule verify_items_not_dicts) (simp add: verify_item_def)
      then show ?thesis
        using Some JStr by (simp add: d JObj spec_details_def)
    next
      case (JObj kvs)
      from assms obtain new where n: "verify_items w project_root (map (\<lambda>kv. JStr (fst kv)) kvs) = Inr new"
        and d: "d' = JObj (AList.update (str ''evidence'') (JArr new) dkv)"
        using Some JObj \<open>details = JObj dkv\<close>
        by (auto simp: verify_details_def dict_get_def split: sum.splits)
      have "kvs = [] \<and> new = []"
        using n by (rule verify_items_not_dicts) (simp add: verify_item_def)
      then show ?thesis
        using Some JObj \<open>details = JObj dkv\<close> by (simp add: d spec_details_def)
    qed (use assms Some \<open>details = JObj dkv\<close> in
           \<open>simp_all add: verify_details_def dict_get_def\<close>)
  qed
qed (use assms in \<open>simp_all add: verify_details_def\<close>)

lemma verify_cats_spec:
  "verify_cats w project_root cs = Inr cs'
   \<Longrightarrow> cs' = map (\<lambda>cd. (fst cd, spec_details w project_root (snd cd))) cs"
proof (induction cs arbitrary: cs')
  case Nil
  then show ?case by simp
next
  case (Cons cd cs)
  obtain cat details where cd: "cd = (cat, details)" by (cases cd)
  from Cons.prems obtain d' rest' where d: "verify_details w project_root details = Inr d'"
    and r: "verify_cats w project_root cs = Inr rest'" and c: "cs' = (cat, d') # rest'"
    by (auto simp: cd split: sum.splits)
  show ?case
    using verify_details_spec[OF d] Cons.IH[OF r] by (simp add: c cd)
qed

lemma verify_evidence_spec:
  assumes "verify_evidence w project_root report = Inr r'"
  shows "r' = spec_report w project_root report"
proof (cases report)
  case (JObj rkv)
  show ?thesis
  proof (cases "map_of rkv (str ''criteria_scores'')")
    case None
    then show ?thesis
      using assms by (simp add: JObj verify_evidence_def spec_report_def dict_get_def)
  next
    case (Some c)
    show ?thesis
    proof (cases c)
      case (JObj cs)
      from assms obtain new where n: "verify_cats w project_root cs = Inr new"
        and d: "r' = JObj (AList.update (str ''criteria_scores'') (JObj new) rkv)"
        using Some JObj \<open>report = JObj rkv\<close>
        by (auto simp: verify_evidence_def dict_get_def split: sum.splits)
      show ?thesis
        using verify_cats_spec[OF n] Some JObj \<open>report = JObj rkv\<close>
        by (simp add: d spec_report_def)
    qed (use assms Some \<open>report = JObj rkv\<close> in
           \<open>simp_all add: verify_evidence_def dict_get_def\<close>)
  qed
qed (use assms in \<open>simp_all add: verify_evidence_def\<close>)

text \<open>
  Claim C1, as the code has it. For every project root and every parsed report:
  whenever \<open>verify_evidence\<close> returns, it returns the report with every key, every
  category and every evidence item in its place, and each item annotated as
  \<open>spec_item\<close> says: \<open>verified: true\<close> when the cited path is a non-empty string that,
  joined to the root, is an existing file that can be read, and the snippet is a
  string whose trimmed text is not empty and occurs in the text of that file;
  \<open>verified: false\<close> in every other case, with the note set to the old note
  followed by \<open> [EVIDENCE NOT FOUND]\<close>, trimmed. It does return for every report of
  the shape \<open>report_ok\<close>. The trimming drops the leading whitespace of the old
  note, and nothing else of it; of a blank note only the marker remains.
\<close>

theorem verify_evidence_annotates:
  "(\<forall>r'. verify_evidence w project_root report = Inr r'
          \<longrightarrow> r' = spec_report w project_root report)
   \<and> (report_ok report
        \<longrightarrow> verify_evidence w project_root report = Inr (spec_report w project_root report))
   \<and> (\<forall>n. strip (n @ str '' [EVIDENCE NOT FOUND]'')
            = (if list_all is_space n then str ''[EVIDENCE NOT FOUND]''
               else lstrip n @ str '' [EVIDENCE NOT FOUND]''))"
proof (intro conjI allI impI)
  fix r'
  assume "verify_evidence w project_root report = Inr r'"
  then show "r' = spec_report w project_root report"
    by (rule verify_evidence_spec)
next
  assume "report_ok report"
  then obtain r' where r: "verify_evidence w project_root report = Inr r'"
    using verify_evidence_ok by blast
  then show "verify_evidence w project_root report = Inr (spec_report w project_root report)"
    using verify_evidence_spec[OF r] by simp
next
  fix n
  show "strip (n @ str '' [EVIDENCE NOT FOUND]'')
            = (if list_all is_space n then str ''[EVIDENCE NOT FOUND]''
               else lstrip n @ str '' [EVIDENCE NOT FOUND]'')"
    by (rule strip_note_marker)
qed

text \<open>
  An instance in the example project, whose \<open>a.py\<close> reads \<open>x=1\<close>: a snippet that
  occurs, one that does not, and one that is not a string.
\<close>

theorem verify_evidence_annotates_witness:
  "report_ok (JObj [(str ''role'', JStr (str ''sde'')),
      (str ''criteria_scores'', JObj [(str ''style'', JObj [(str ''score'', JInt 5),
        (str ''evidence'', JArr
           [JObj [(str ''path'', JStr (str ''a.py'')), (str ''snippet'', JStr (str '' x=1 '')),
                  (str ''note'', JStr (str ''assignment''))],
            JObj [(str ''path'', JStr (str ''a.py'')), (str ''snippet'', JStr (str ''foo(baz)'')),
                  (str ''note'', JStr (str ''call''))],
            JObj [(str ''path'', JStr (str ''a.py'')), (str ''snippet'', JInt 5)]])])])])
   \<and> verify_evidence (example_world []) (str ''proj'')
      (JObj [(str ''role'', JStr (str ''sde'')),
      (str ''criteria_scores'', JObj [(str ''style'', JObj [(str ''score'', JInt 5),
        (str ''evidence'', JArr
           [JObj [(str ''path'', JStr (str ''a.py'')), (str ''snippet'', JStr (str '' x=1 '')),
                  (str ''note'', JStr (str ''assignment''))],
            JObj [(str ''path'', JStr (str ''a.py'')), (str ''snippet'', JStr (str ''foo(baz)'')),
                  (str ''note'', JStr (str ''call''))],
            JObj [(str ''path'', JStr (str ''a.py'')), (str ''snippet'', JInt 5)]])])])])
     = Inr (JObj [(str ''role'', JStr (str ''sde'')),
      (str ''criteria_scores'', JObj [(str ''style'', JObj [(str ''score'', JInt 5),
        (str ''evidence'', JArr
           [JObj [(str ''path'', JStr (str ''a.py'')), (str ''snippet'', JStr (str '' x=1 '')),
                  (str ''note'', JStr (str ''assignment'')), (str ''verified'', JBool True)],
            JObj [(str ''path'', JStr (str ''a.py'')), (str ''snippet'', JStr (str ''foo(baz)'')),
                  (str ''note'', JStr (str ''call [EVIDENCE NOT FOUND]'')),
                  (str ''verified'', JBool False)],
            JObj [(str ''path'', JStr (str ''a.py'')), (str ''snippet'', JInt 5),
                  (str ''verified'', JBool False),
                  (str ''note'', JStr (str ''[EVIDENCE NOT FOUND]''))]])])])])"
proof -
  let ?r = "JObj [(str ''role'', JStr (str ''sde'')),
      (str ''criteria_scores'', JObj [(str ''style'', JObj [(str ''score'', JInt 5),
        (str ''evidence'', JArr
           [JObj [(str ''path'', JStr (str ''a.py'')), (str ''snippet'', JStr (str '' x=1 '')),
                  (str ''note'', JStr (str ''assignment''))],
            JObj [(str ''path'', JStr (str ''a.py'')), (str ''snippet'', JStr (str ''foo(baz)'')),
                  (str ''note'', JStr (str ''call''))],
            JObj [(str ''path'', JStr (str ''a.py'')), (str ''snippet'', JInt 5)]])])])]"
  have ok: "report_ok ?r"
    by (simp add: report_ok_def details_ok_def item_ok_def field_is_str_def)
  have v: "verify_evidence (example_world []) (str ''proj'') ?r
           = Inr (spec_report (example_world []) (str ''proj'') ?r)"
    using verify_evidence_annotates[of "example_world []" "str ''proj''" ?r] ok by blast
  show ?thesis
    using ok unfolding v by (simp add: spec_defs)
qed

text \<open>
  Claim C1 as stated fails on a note that starts with whitespace: the new note
  does not contain the old one.
\<close>

theorem note_leading_whitespace_counterexample:
  "verify_evidence (example_world []) (str ''proj'')
     (JObj [(str ''criteria_scores'', JObj [(str ''style'', JObj [(str ''evidence'', JArr
        [JObj [(str ''path'', JStr (str ''a.py'')), (str ''snippet'', JStr (str ''foo(baz)'')),
               (str ''note'', JStr (str ''  see main''))]])])])])
   = Inr (JObj [(str ''criteria_scores'', JObj [(str ''style'', JObj [(str ''evidence'', JArr
        [JObj [(str ''path'', JStr (str ''a.py'')), (str ''snippet'', JStr (str ''foo(baz)'')),
               (str ''note'', JStr (str ''see main [EVIDENCE NOT FOUND]'')),
               (str ''verified'', JBool False)]])])])])
   \<and> \<not> contains (str ''  see main'') (str ''see main [EVIDENCE NOT FOUND]'')"
  by (simp add: verify_evidence_def verify_details_def verifier_defs)

text \<open>
  Claim C10, as the code has it. A report whose \<open>criteria_scores\<close> (when present) is
  a dict of dicts, whose evidence lists (when present) are lists of dicts, and
  whose items have a \<open>path\<close> and a \<open>note\<close> that are strings or absent, never makes
  \<open>verify_evidence\<close> raise, whatever the snippets are. An item whose path is
  absent or empty, or whose snippet is absent, is returned with \<open>verified: false\<close>
  and the note made of the old note (empty when absent) and the marker, trimmed.
  An item that lacks only its note is verified like any other item.
\<close>

theorem verify_evidence_total:
  "(report_ok report \<longrightarrow> (\<exists>r'. verify_evidence w project_root report = Inr r'))
   \<and> (\<forall>kvs p n. str_field kvs (str ''path'') p \<and> str_field kvs (str ''note'') n \<longrightarrow>
        (\<exists>kvs' v. verify_item w project_root (JObj kvs) = Inr (JObj kvs')
           \<and> map_of kvs' (str ''verified'') = Some (JBool v)
           \<and> (p = [] \<or> map_of kvs (str ''snippet'') = None \<longrightarrow>
                \<not> v \<and> map_of kvs' (str ''note'')
                         = Some (JStr (strip (n @ str '' [EVIDENCE NOT FOUND]''))))))"
proof (intro conjI allI impI)
  assume "report_ok report"
  then show "\<exists>r'. verify_evidence w project_root report = Inr r'"
    by (rule verify_evidence_ok)
next
  fix kvs p n
  assume a: "str_field kvs (str ''path'') p \<and> str_field kvs (str ''note'') n"
  let ?found = "p \<noteq> [] \<and> isfile w (path_join project_root p)
               \<and> snippet_found w (path_join project_root p) (dict_get kvs (str ''snippet'') (JStr []))"
  have u: "verify_item w project_root (JObj kvs)
         = (if ?found
            then Inr (JObj (AList.update (str ''verified'') (JBool True) kvs))
            else Inr (JObj (AList.update (str ''note'')
                              (JStr (strip (n @ str '' [EVIDENCE NOT FOUND]'')))
                              (AList.update (str ''verified'') (JBool False) kvs))))"
    using a verify_item_unfold by blast
  have nf: "\<not> ?found" if "p = [] \<or> map_of kvs (str ''snippet'') = None"
    using that by (auto simp: dict_get_def snippet_found_def strip_Nil split: option.splits)
  show "\<exists>kvs' v. verify_item w project_root (JObj kvs) = Inr (JObj kvs')
           \<and> map_of kvs' (str ''verified'') = Some (JBool v)
           \<and> (p = [] \<or> map_of kvs (str ''snippet'') = None \<longrightarrow>
                \<not> v \<and> map_of kvs' (str ''note'')
                         = Some (JStr (strip (n @ str '' [EVIDENCE NOT FOUND]''))))"
  proof (cases ?found)
    case True
    then have "verify_item w project_root (JObj kvs)
               = Inr (JObj (AList.update (str ''verified'') (JBool True) kvs))"
      unfolding u by (rule if_P)
    moreover have "map_of (AList.update (str ''verified'') (JBool True) kvs) (str ''verified'')
                   = Some (JBool True)"
      by (simp add: update_conv')
    moreover have "\<not> (p = [] \<or> map_of kvs (str ''snippet'') = None)"
      using True nf by blast
    ultimately show ?thesis
      by (intro exI[of _ "AList.update (str ''verified'') (JBool True) kvs"] exI[of _ True]) simp
  next
    case False
    let ?k = "AList.update (str ''note'') (JStr (strip (n @ str '' [EVIDENCE NOT FOUND]'')))
                (AList.update (str ''verified'') (JBool False) kvs)"
    have "verify_item w project_root (JObj kvs) = Inr (JObj ?k)"
      using False by (simp only: u if_False)
    moreover have "map_of ?k (str ''verified'') = Some (JBool False)"
      by (simp add: update_conv')
    moreover have "map_of ?k (str ''note'') = Some (JStr (strip (n @ str '' [EVIDENCE NOT FOUND]'')))"
      by (simp add: update_conv')
    ultimately show ?thesis
      by (intro exI[of _ ?k] exI[of _ False]) simp
  qed
qed

text \<open>
  An instance: an item with a snippet only.
\<close>

theorem verify_evidence_total_witness:
  "report_ok (JObj [(str ''criteria_scores'', JObj [(str ''style'', JObj [(str ''evidence'',
       JArr [JObj [(str ''snippet'', JStr (str ''x=1''))]])])])])
   \<and> (\<exists>r'. verify_evidence (example_world []) (str ''proj'')
          (JObj [(str ''criteria_scores'', JObj [(str ''style'', JObj [(str ''evidence'',
             JArr [JObj [(str ''snippet'', JStr (str ''x=1''))]])])])]) = Inr r')
   \<and> str_field [(str ''snippet'', JStr (str ''x=1''))] (str ''path'') []
   \<and> str_field [(str ''snippet'', JStr (str ''x=1''))] (str ''note'') []
   \<and> (\<exists>kvs' v. verify_item (example_world []) (str ''proj'') (JObj [(str ''snippet'', JStr (str ''x=1''))])
            = Inr (JObj kvs')
         \<and> map_of kvs' (str ''verified'') = Some (JBool v) \<and> \<not> v
         \<and> map_of kvs' (str ''note'') = Some (JStr (str ''[EVIDENCE NOT FOUND]'')))"
proof -
  let ?r = "JObj [(str ''criteria_scores'', JObj [(str ''style'', JObj [(str ''evidence'',
       JArr [JObj [(str ''snippet'', JStr (str ''x=1''))]])])])]"
  let ?kvs = "[(str ''snippet'', JStr (str ''x=1''))]"
  have ok: "report_ok ?r"
    by (simp add: report_ok_def details_ok_def item_ok_def field_is_str_def)
  have f: "str_field ?kvs (str ''path'') []" "str_field ?kvs (str ''note'') []"
    by (simp_all add: str_field_def)
  have m: "strip ([] @ str '' [EVIDENCE NOT FOUND]'') = str ''[EVIDENCE NOT FOUND]''"
    by (simp add: strip_def lstrip_def rstrip_def is_space_def)
  show ?thesis
    using verify_evidence_total[of ?r "example_world []" "str ''proj''"] ok f
    unfolding m[symmetric] by blast
qed

text \<open>
  Claim C10 as stated fails on an item that lacks only its note: when its snippet
  occurs in its file it is returned with \<open>verified: true\<close> and without a marker.
\<close>

theorem missing_note_counterexample:
  "map_of [(str ''path'', JStr (str ''a.py'')), (str ''snippet'', JStr (str ''x=1''))] (str ''note'') = None
   \<and> verify_item (example_world []) (str ''proj'')
     (JObj [(str ''path'', JStr (str ''a.py'')), (str ''snippet'', JStr (str ''x=1''))])
   = Inr (JObj [(str ''path'', JStr (str ''a.py'')), (str ''snippet'', JStr (str ''x=1'')),
                (str ''verified'', JBool True)])"
  by (simp add: verifier_defs)


section \<open>The Pipeline Orchestrator\<close>

lemma verify_item_has_verified:
  "verify_item w project_root ev = Inr ev' \<Longrightarrow> has_verified ev'"
  unfolding verify_item_def
  by (auto simp: has_verified_def update_conv' Let_def
           split: json.splits sum.splits if_splits)

lemma verify_items_has_verified:
  "verify_items w project_root evs = Inr evs' \<Longrightarrow> list_all has_verified evs'"
  by (induction evs arbitrary: evs')
     (auto split: sum.splits dest: verify_item_has_verified)

lemma verify_details_verified:
  "verify_details w project_root details = Inr d' \<Longrightarrow> details_verified d'"
  unfolding verify_details_def
  by (auto simp: details_verified_def update_conv'
           split: json.splits sum.splits dest: verify_items_has_verified)

lemma verify_cats_verified:
  "verify_cats w project_root cs = Inr cs' \<Longrightarrow> list_all (\<lambda>cd. details_verified (snd cd)) cs'"
proof (induction cs arbitrary: cs')
  case Nil
  then show ?case by simp
next
  case (Cons cd cs)
  obtain cat details where cd: "cd = (cat, details)" by (cases cd)
  from Cons.prems obtain d' rest' where d: "verify_details w project_root details = Inr d'"
    and r: "verify_cats w project_root cs = Inr rest'" and c: "cs' = (cat, d') # rest'"
    by (auto simp: cd split: sum.splits)
  show ?case
    using verify_details_verified[OF d] Cons.IH[OF r] by (simp add: c)
qed

lemma verify_evidence_verified:
  "verify_evidence w project_root report = Inr r' \<Longrightarrow> report_verified r'"
  unfolding verify_evidence_def
  by (auto simp: report_verified_def update_conv'
           split: json.splits sum.splits dest: verify_cats_verified)

text \<open>
  Claim C9. Whenever the run from the parsing on returns, the report it returns is
  the one the Verifier wrote into: every item of every evidence list of every
  category carries \<open>verified\<close>, and its value is a boolean (a value the model gave
  to that key is overwritten).
\<close>

theorem finish_report_verified:
  "finish_report lib w project_root raw_output files = (evs, Inr out)
   \<Longrightarrow> report_verified (out_result out)"
  unfolding finish_report_def
  by (auto split: sum.splits dest: verify_evidence_verified)

text \<open>
  An instance: a report with one category and two evidence items.
\<close>

theorem finish_report_verified_witness:
  "finish_report example_lib (example_world []) (str ''proj'')
      (str ''{\"criteria_scores\": {\"style\": {\"score\": 5, \"evidence\": [{\"path\": \"a.py\", \"snippet\": \"x=1\"}, {\"path\": \"b.py\"}]}}}'') []
   = ([VerifyFiles (str ''proj'')],
      Inr \<lparr>out_raw = str ''{\"criteria_scores\": {\"style\": {\"score\": 5, \"evidence\": [{\"path\": \"a.py\", \"snippet\": \"x=1\"}, {\"path\": \"b.py\"}]}}}'',
           out_result = JObj [(str ''criteria_scores'', JObj [(str ''style'',
              JObj [(str ''score'', JInt 5),
                    (str ''evidence'', JArr
                       [JObj [(str ''path'', JStr (str ''a.py'')), (str ''snippet'', JStr (str ''x=1'')),
                              (str ''verified'', JBool True)],
                        JObj [(str ''path'', JStr (str ''b.py'')), (str ''verified'', JBool False),
                              (str ''note'', JStr (str ''[EVIDENCE NOT FOUND]''))]])])])],
           out_files_sent_count = 0\<rparr>)
   \<and> report_verified (JObj [(str ''criteria_scores'', JObj [(str ''style'',
              JObj [(str ''score'', JInt 5),
                    (str ''evidence'', JArr
                       [JObj [(str ''path'', JStr (str ''a.py'')), (str ''snippet'', JStr (str ''x=1'')),
                              (str ''verified'', JBool True)],
                        JObj [(str ''path'', JStr (str ''b.py'')), (str ''verified'', JBool False),
                              (str ''note'', JStr (str ''[EVIDENCE NOT FOUND]''))]])])])])"
proof -
  have l: "json_loads example_lib (str ''{\"criteria_scores\": {\"style\": {\"score\": 5, \"evidence\": [{\"path\": \"a.py\", \"snippet\": \"x=1\"}, {\"path\": \"b.py\"}]}}}'')
     = Inr (JObj [(str ''criteria_scores'', JObj [(str ''style'',
              JObj [(str ''score'', JInt 5),
                    (str ''evidence'', JArr
                       [JObj [(str ''path'', JStr (str ''a.py'')), (str ''snippet'', JStr (str ''x=1''))],
                        JObj [(str ''path'', JStr (str ''b.py''))]])])])])"
    by (simp add: loads_defs)
  have e: "finish_report example_lib (example_world []) (str ''proj'')
      (str ''{\"criteria_scores\": {\"style\": {\"score\": 5, \"evidence\": [{\"path\": \"a.py\", \"snippet\": \"x=1\"}, {\"path\": \"b.py\"}]}}}'') []
   = ([VerifyFiles (str ''proj'')],
      Inr \<lparr>out_raw = str ''{\"criteria_scores\": {\"style\": {\"score\": 5, \"evidence\": [{\"path\": \"a.py\", \"snippet\": \"x=1\"}, {\"path\": \"b.py\"}]}}}'',
           out_result = JObj [(str ''criteria_scores'', JObj [(str ''style'',
              JObj [(str ''score'', JInt 5),
                    (str ''evidence'', JArr
                       [JObj [(str ''path'', JStr (str ''a.py'')), (str ''snippet'', JStr (str ''x=1'')),
                              (str ''verified'', JBool True)],
                        JObj [(str ''path'', JStr (str ''b.py'')), (str ''verified'', JBool False),
                              (str ''note'', JStr (str ''[EVIDENCE NOT FOUND]''))]])])])],
           out_files_sent_count = 0\<rparr>)"
    using l
    by (simp add: finish_report_def parse_response_def bracket_attempt_def rindex_of_def slice_def
          verify_evidence_def verify_details_def verifier_defs)
  from finish_report_verified[OF e] show ?thesis using e by simp
qed

text \<open>
  Claim C6. For every role other than \<open>intern\<close>, \<open>sde\<close> and \<open>architect\<close>,
  \<open>validate_project\<close> raises ValueError at once: the trace of outside calls is
  empty, so the criteria file has not been read, the project has not been walked
  and the model has not been called.
\<close>

theorem validate_project_rejects_role:
  assumes "role \<noteq> str ''intern''" and "role \<noteq> str ''sde''" and "role \<noteq> str ''architect''"
  shows "validate_project lib w project_root criteria_path role
         = ([], Inl (ValueError (str ''role must be one of: intern, sde, architect'')))"
  using assms by (simp add: validate_project_def roles_def)

text \<open>
  An instance: the role \<open>manager\<close>.
\<close>

theorem validate_project_rejects_role_witness:
  "validate_project example_lib (example_world []) (str ''proj'') (str ''criteria.json'') (str ''manager'')
     = ([], Inl (ValueError (str ''role must be one of: intern, sde, architect'')))"
  by (rule validate_project_rejects_role) simp_all

text \<open>
  With a role of the closed set and a readable criteria file, \<open>validate_project\<close>
  ends in the KeyError of \<open>build_prompt\<close>, after the walk and before the model call.
\<close>

lemma validate_project_format_error:
  assumes "role \<in> set roles" and "read_criteria w criteria_path = Inr criteria"
  shows "validate_project lib w project_root criteria_path role
         = ([ReadCriteria criteria_path, WalkProject project_root],
            Inl (KeyError (str ''\<newline>    \"role\"'')))"
proof -
  have "build_prompt lib criteria role files
        = (files, Inl (KeyError (str ''\<newline>    \"role\"'')))" for files
    using build_prompt_KeyError[of lib criteria role files] dump_loop_store[of files 0 "[]"]
    by (simp add: build_prompt_def split_def Let_def prod_eq_iff)
  then show ?thesis
    using assms by (simp add: validate_project_def Let_def)
qed

lemma validate_project_never_returns:
  "isl (snd (validate_project lib w project_root criteria_path role))"
proof (cases "role \<in> set roles")
  case False
  then show ?thesis by (simp add: validate_project_def)
next
  case True
  show ?thesis
  proof (cases "read_criteria w criteria_path")
    case (Inl e)
    then show ?thesis using True by (simp add: validate_project_def)
  next
    case (Inr criteria)
    then show ?thesis using validate_project_format_error[OF True Inr] by simp
  qed
qed

end
